theory Spec2Isabelle
  imports Complex_Main
begin

section \<open>The minimax polynomial fitter of the Parks-McClellan notebook\<close>

text \<open>
  The notebook \<^verbatim>\<open>12_Parks-McClellan-Filter-Design\<close> defines \<^verbatim>\<open>find_error_extrema\<close>,
  \<^verbatim>\<open>solve\<close>, \<^verbatim>\<open>remez_fit\<close> and \<^verbatim>\<open>remez_fit2\<close>. They are embedded here as HOL functions.
  Python floats are idealised as the reals (so \<^verbatim>\<open>1e-3\<close> is \<open>1/1000\<close> and no rounding
  takes place), Python integers are \<open>int\<close>, and every exception the code can raise is a
  value of the type \<open>error\<close>.
\<close>

subsection \<open>Errors\<close>

datatype error =
    ValueError          \<comment> \<open>\<^verbatim>\<open>raise ValueError\<close> of \<^verbatim>\<open>remez_fit\<close>; numpy on bad shapes\<close>
  | LinAlgError         \<comment> \<open>\<^verbatim>\<open>np.linalg.solve\<close> on a singular matrix\<close>
  | IndexError          \<comment> \<open>indexing an empty array or list\<close>
  | ZeroDivisionError   \<comment> \<open>float division by zero\<close>
  | UnboundLocalError   \<comment> \<open>reading a local variable that was never assigned\<close>

subsection \<open>Polynomials and numpy helpers\<close>

text \<open>
  \<^verbatim>\<open>np.poly1d(v[-2::-1])\<close> is kept as the list of its coefficients, lowest power first
  (the list \<^verbatim>\<open>v\<close> without its last entry); \<open>polyval\<close> is its evaluation by Horner's rule.
\<close>

fun polyval :: "real list \<Rightarrow> real \<Rightarrow> real" where
  "polyval [] t = 0"
| "polyval (c # cs) t = c + t * polyval cs t"

text \<open>\<^verbatim>\<open>np.linspace(a, b, n)\<close>: \<open>n\<close> samples, the last one set to \<open>b\<close> itself.\<close>

definition linspace :: "real \<Rightarrow> real \<Rightarrow> nat \<Rightarrow> real list" where
  "linspace a b n =
     map (\<lambda>i. a + real i * ((b - a) / real (n - 1))) [0..<n - 1] @ [b]"

text \<open>\<^verbatim>\<open>np.diff\<close>: the list of consecutive differences.\<close>

fun diff :: "real list \<Rightarrow> real list" where
  "diff (a # b # xs) = (b - a) # diff (b # xs)"
| "diff xs = []"

text \<open>\<^verbatim>\<open>a.nonzero()[0]\<close>: the indices of the nonzero entries, counted from \<open>k\<close>.\<close>

fun nonzero_from :: "nat \<Rightarrow> real list \<Rightarrow> nat list" where
  "nonzero_from k [] = []"
| "nonzero_from k (d # ds) = (if d \<noteq> 0 then k # nonzero_from (Suc k) ds else nonzero_from (Suc k) ds)"

text \<open>Python's \<^verbatim>\<open>int(r)\<close> on a float: truncation towards zero.\<close>

definition py_int :: "real \<Rightarrow> int" where
  "py_int r = (if 0 \<le> r then \<lfloor>r\<rfloor> else \<lceil>r\<rceil>)"

subsection \<open>The error-extrema locator\<close>

text \<open>
  One pass of the loop body of \<^verbatim>\<open>find_error_extrema\<close> over the interval \<open>(lo, hi)\<close> with
  target value \<open>val\<close>: the locations \<^verbatim>\<open>t[0], t[ix], t[-1]\<close> and the errors
  \<^verbatim>\<open>y[0], y[ix], y[-1]\<close>, where \<^verbatim>\<open>ix = np.diff(np.sign(np.diff(y))).nonzero()[0] + 1\<close>.
\<close>

definition error_curve :: "real list \<Rightarrow> real \<Rightarrow> real list \<Rightarrow> real list" where
  "error_curve p val t = map (\<lambda>u. val - polyval p u) t"

definition extrema_ix :: "real list \<Rightarrow> nat list" where
  "extrema_ix y = nonzero_from 1 (diff (map sgn (diff y)))"

definition interval_extrema :: "real list \<Rightarrow> real \<Rightarrow> real \<Rightarrow> real \<Rightarrow> real list \<times> real list" where
  "interval_extrema p lo hi val =
     (let t = linspace lo hi 100;
          y = error_curve p val t;
          ix = extrema_ix y
      in (hd t # map ((!) t) ix @ [last t], hd y # map ((!) y) ix @ [last y]))"

text \<open>
  The dictionary \<^verbatim>\<open>intervals\<close> is visited in insertion order. Its two keys \<^verbatim>\<open>(0, A)\<close> and
  \<^verbatim>\<open>(B, 1)\<close> are the same key when \<open>A = 1\<close> and \<open>B = 0\<close>; the second value then
  overwrites the first.
\<close>

definition find_error_extrema :: "real list \<Rightarrow> real \<Rightarrow> real \<Rightarrow> real list \<times> real list" where
  "find_error_extrema p A B =
     (if A = 1 \<and> B = 0 then interval_extrema p 0 1 0
      else
        (let (loc1, err1) = interval_extrema p 0 A 1;
             (loc2, err2) = interval_extrema p B 1 0
         in (loc1 @ loc2, err1 @ err2)))"

text \<open>
  Names for what the locator computes: the \<open>i\<close>-th of the 100 samples of an interval, and
  the test that \<^verbatim>\<open>np.diff(np.sign(np.diff(y)))\<close> is nonzero at \<open>i - 1\<close>, that is, that the sign
  of the step into sample \<open>i\<close> differs from the sign of the step out of it.
\<close>

definition grid_point :: "real \<Rightarrow> real \<Rightarrow> nat \<Rightarrow> real" where
  "grid_point lo hi i = (if i = 99 then hi else lo + real i * ((hi - lo) / 99))"

definition turning :: "(nat \<Rightarrow> real) \<Rightarrow> nat \<Rightarrow> bool" where
  "turning f i \<longleftrightarrow> sgn (f i - f (i - 1)) \<noteq> sgn (f (i + 1) - f i)"

text \<open>
  The design document's words, for comparison: an interior local maximum or minimum of
  the sampled error, strict (\<open>spec_local_extremum\<close>) or not (\<open>spec_weak_extremum\<close>).
\<close>

definition spec_local_extremum :: "(nat \<Rightarrow> real) \<Rightarrow> nat \<Rightarrow> bool" where
  "spec_local_extremum f i \<longleftrightarrow>
     (f (i - 1) < f i \<and> f (i + 1) < f i) \<or> (f i < f (i - 1) \<and> f i < f (i + 1))"

definition spec_weak_extremum :: "(nat \<Rightarrow> real) \<Rightarrow> nat \<Rightarrow> bool" where
  "spec_weak_extremum f i \<longleftrightarrow>
     (f (i - 1) \<le> f i \<and> f (i + 1) \<le> f i) \<or> (f i \<le> f (i - 1) \<and> f i \<le> f (i + 1))"

subsection \<open>The extended interpolation solver\<close>

text \<open>
  \<^verbatim>\<open>np.linalg.solve\<close> is a library routine (LAPACK's LU factorisation with partial
  pivoting); it is modelled as Gaussian elimination in exact arithmetic on the rows
  \<open>(coefficients, right-hand side)\<close>, pivoting on the first entry of largest absolute
  value of the current column, and failing on a zero pivot. On doubles the routine raises
  only when a pivot is exactly zero, which rounding can prevent on a singular matrix; so
  the properties below either concern the vector that the solver returns or hold for
  whatever the solver does. The one failure evaluated below is that of a system whose
  first row occurs twice, where the pivot is zero in doubles as well.
\<close>

fun pivot_index :: "real list \<Rightarrow> nat" where
  "pivot_index [] = 0"
| "pivot_index [c] = 0"
| "pivot_index (c # cs) = (let j = pivot_index cs in if \<bar>c\<bar> < \<bar>cs ! j\<bar> then Suc j else 0)"

definition lead :: "real list \<times> real \<Rightarrow> real" where
  "lead r = (case fst r of [] \<Rightarrow> 0 | a # _ \<Rightarrow> a)"

definition dot :: "real list \<Rightarrow> real list \<Rightarrow> real" where
  "dot cs v = sum_list (map2 (*) cs v)"

definition eliminate :: "real list \<times> real \<Rightarrow> real list \<times> real \<Rightarrow> real list \<times> real" where
  "eliminate pr r =
     (let m = lead r / lead pr
      in (map2 (\<lambda>a b. a - m * b) (tl (fst r)) (tl (fst pr)), snd r - m * snd pr))"

function linalg_solve :: "(real list \<times> real) list \<Rightarrow> real list option" where
  "linalg_solve [] = Some []"
| "linalg_solve (r # rs) =
     (let rows = r # rs;
          i = pivot_index (map lead rows);
          pr = rows ! i
      in if lead pr = 0 then None
         else case linalg_solve (map (eliminate pr) (take i rows @ drop (Suc i) rows)) of
                None \<Rightarrow> None
              | Some v \<Rightarrow> Some ((snd pr - dot (tl (fst pr)) v) / lead pr # v))"
  by pat_completeness auto
termination
proof (relation "measure length")
  show "wf (measure length)" by simp
next
  fix r :: "real list \<times> real" and rs rows i pr
  assume "rows = r # rs" and "i = pivot_index (map lead rows)"
  moreover have "col \<noteq> [] \<Longrightarrow> pivot_index col < length col" for col
    by (induction col rule: pivot_index.induct) (auto simp: Let_def)
  from this [of "map lead rows"] calculation have "i < length rows"
    by simp
  ultimately show "(map (eliminate pr) (take i rows @ drop (Suc i) rows), r # rs) \<in> measure length"
    by auto
qed

text \<open>
  \<^verbatim>\<open>np.vander(x, increasing=True)\<close> with its last column overwritten: row \<open>i\<close> holds the
  powers \<open>0 .. length x - 2\<close> of \<open>x ! i\<close> and then the entry \<open>col i\<close>.
\<close>

definition ext_matrix :: "(nat \<Rightarrow> real) \<Rightarrow> real list \<Rightarrow> real list list" where
  "ext_matrix col x =
     map (\<lambda>i. map (\<lambda>k. (x ! i) ^ k) [0..<length x - 1] @ [col i]) [0..<length x]"

text \<open>
  The body shared by \<^verbatim>\<open>solve\<close> and by the inlined solver of \<^verbatim>\<open>remez_fit2\<close>: on an empty
  \<open>x\<close> the assignment to \<^verbatim>\<open>V[:,-1]\<close> raises IndexError, \<^verbatim>\<open>np.linalg.solve\<close> rejects
  a right-hand side of another length, and the result is \<^verbatim>\<open>(v[-2::-1], abs(v[-1]))\<close>.
\<close>

definition solve_col :: "(nat \<Rightarrow> real) \<Rightarrow> real list \<Rightarrow> real list \<Rightarrow> error + (real list \<times> real)" where
  "solve_col col x y =
     (if x = [] then Inl IndexError
      else if length y \<noteq> length x then Inl ValueError
      else case linalg_solve (zip (ext_matrix col x) y) of
             None \<Rightarrow> Inl LinAlgError
           | Some v \<Rightarrow> Inr (butlast v, \<bar>last v\<bar>))"

definition solve :: "real list \<Rightarrow> real list \<Rightarrow> error + (real list \<times> real)" where
  "solve x y = solve_col (\<lambda>i. (- 1) ^ i) x y"

text \<open>The weighting function \<^verbatim>\<open>weigh\<close> of \<^verbatim>\<open>remez_fit2\<close>, on a scalar.\<close>

definition weigh :: "real \<Rightarrow> real \<Rightarrow> real \<Rightarrow> real" where
  "weigh A Aweight x = (if x \<le> A then 1 / Aweight else 1)"

definition solve2 :: "real \<Rightarrow> real \<Rightarrow> real list \<Rightarrow> real list \<Rightarrow> error + (real list \<times> real)" where
  "solve2 A Aweight x y = solve_col (\<lambda>i. (- 1) ^ i * weigh A Aweight (x ! i)) x y"

subsection \<open>The Selecting step\<close>

text \<open>The dictionaries \<^verbatim>\<open>c\<close> with keys \<^verbatim>\<open>'loc'\<close>, \<^verbatim>\<open>'sign'\<close> and \<^verbatim>\<open>'err_mag'\<close>.\<close>

record cand =
  loc :: real
  sign :: real
  err_mag :: real

text \<open>
  One turn of the loop \<^verbatim>\<open>for n in range(0, len(loc))\<close>: the candidate \<open>c\<close> is looked at
  with the list \<open>alt\<close> built so far.
\<close>

definition alt_step :: "real \<Rightarrow> cand list \<Rightarrow> cand \<Rightarrow> cand list" where
  "alt_step e alt c =
     (if e - 1 / 1000 \<le> err_mag c then
        (if alt = [] then alt @ [c]
         else if sign (last alt) \<noteq> sign c then alt @ [c]
         else if err_mag (last alt) < err_mag c then butlast alt @ [c]
         else alt)
      else alt)"

fun alternations :: "real \<Rightarrow> cand list \<Rightarrow> cand list \<Rightarrow> cand list" where
  "alternations e alt [] = alt"
| "alternations e alt (c # cs) = alternations e (alt_step e alt c) cs"

text \<open>
  The loop \<^verbatim>\<open>while len(alt) > order + 2\<close>. Reading \<^verbatim>\<open>alt[0]\<close> of an empty list (possible
  only when \<open>order + 2\<close> is negative) raises IndexError.
\<close>

function trim :: "int \<Rightarrow> cand list \<Rightarrow> error + cand list" where
  "trim order alt =
     (if order + 2 < int (length alt) then
        (if alt = [] then Inl IndexError
         else if err_mag (last alt) < err_mag (hd alt) then trim order (butlast alt)
         else trim order (tl alt))
      else Inr alt)"
  by pat_completeness auto
termination
  by (relation "measure (\<lambda>(order, alt). length alt)") auto

declare trim.simps [simp del]

text \<open>
  The Selecting step as the design document words it, for comparison with the loop above:
  first the extrema of magnitude at least \<open>e - 1/1000\<close> are filtered out, then the filtered
  list is walked left to right, a candidate being appended when its sign differs from the
  last kept one and replacing the last kept one when it has the same sign and a larger
  magnitude.
\<close>

definition spec_walk_step :: "cand list \<Rightarrow> cand \<Rightarrow> cand list" where
  "spec_walk_step kept c =
     (if kept = [] then [c]
      else if sign c \<noteq> sign (last kept) then kept @ [c]
      else if err_mag (last kept) < err_mag c then butlast kept @ [c]
      else kept)"

definition spec_filter_walk :: "real \<Rightarrow> cand list \<Rightarrow> cand list" where
  "spec_filter_walk e cs = foldl spec_walk_step [] (filter (\<lambda>c. e - 1 / 1000 \<le> err_mag c) cs)"

text \<open>The candidates built from the two arrays returned by the locator.\<close>

definition candidates :: "(real \<Rightarrow> real) \<Rightarrow> real list \<times> real list \<Rightarrow> cand list" where
  "candidates w le =
     map (\<lambda>(l, er). \<lparr>loc = l, sign = sgn er, err_mag = \<bar>er\<bar> / w l\<rparr>) (zip (fst le) (snd le))"

definition select :: "(real \<Rightarrow> real) \<Rightarrow> int \<Rightarrow> real \<Rightarrow> real list \<times> real list \<Rightarrow> error + cand list" where
  "select w order e le = trim order (alternations e [] (candidates w le))"

text \<open>\<^verbatim>\<open>y = [1 if c <= A else 0 for c in x]\<close>\<close>

definition ordinates :: "real \<Rightarrow> real list \<Rightarrow> real list" where
  "ordinates A x = map (\<lambda>c. if c \<le> A then 1 else 0) x"

subsection \<open>The exchange driver\<close>

text \<open>
  The dictionary \<^verbatim>\<open>data\<close>, which starts empty: a key that was never written is \<open>None\<close>.
  \<^verbatim>\<open>remez_fit\<close> writes \<^verbatim>\<open>'err'\<close>, \<^verbatim>\<open>remez_fit2\<close> writes \<^verbatim>\<open>'Aerr'\<close> and \<^verbatim>\<open>'Berr'\<close>.
\<close>

record data =
  prev_x :: "real list option"
  prev_y :: "real list option"
  err :: "real option"
  Aerr :: "real option"
  Berr :: "real option"
  new_x :: "real list option"

definition data_empty :: data where
  "data_empty = \<lparr>prev_x = None, prev_y = None, err = None, Aerr = None, Berr = None, new_x = None\<rparr>"

text \<open>
  The state carried round the loop \<^verbatim>\<open>for n in range(0, iterations)\<close>: the points
  \<open>x\<close>, \<open>y\<close>, the variable \<open>p\<close> (unbound before the first turn) and \<open>data\<close>.
\<close>

record fit_state =
  xs :: "real list"
  ys :: "real list"
  poly :: "real list option"
  dat :: data

definition remez_body :: "real \<Rightarrow> real \<Rightarrow> int \<Rightarrow> fit_state \<Rightarrow> error + fit_state" where
  "remez_body A B order s =
     (case solve (xs s) (ys s) of
        Inl ex \<Rightarrow> Inl ex
      | Inr (p, e) \<Rightarrow>
          (case select (\<lambda>l. 1) order e (find_error_extrema p A B) of
             Inl ex \<Rightarrow> Inl ex
           | Inr alt \<Rightarrow>
               (let x' = map loc alt
                in Inr \<lparr>xs = x', ys = ordinates A x', poly = Some p,
                        dat = (dat s)\<lparr>prev_x := Some (xs s), prev_y := Some (ys s),
                                        err := Some e, new_x := Some x'\<rparr>\<rparr>)))"

definition remez_body2 :: "real \<Rightarrow> real \<Rightarrow> real \<Rightarrow> int \<Rightarrow> fit_state \<Rightarrow> error + fit_state" where
  "remez_body2 A B Aweight order s =
     (case solve2 A Aweight (xs s) (ys s) of
        Inl ex \<Rightarrow> Inl ex
      | Inr (p, e) \<Rightarrow>
          (case select (weigh A Aweight) order e (find_error_extrema p A B) of
             Inl ex \<Rightarrow> Inl ex
           | Inr alt \<Rightarrow>
               (let x' = map loc alt
                in Inr \<lparr>xs = x', ys = ordinates A x', poly = Some p,
                        dat = (dat s)\<lparr>prev_x := Some (xs s), prev_y := Some (ys s),
                                        Aerr := Some (e / Aweight), Berr := Some e,
                                        new_x := Some x'\<rparr>\<rparr>)))"

fun iterate :: "(fit_state \<Rightarrow> error + fit_state) \<Rightarrow> nat \<Rightarrow> fit_state \<Rightarrow> error + fit_state" where
  "iterate body 0 s = Inr s"
| "iterate body (Suc n) s = (case body s of Inl ex \<Rightarrow> Inl ex | Inr s' \<Rightarrow> iterate body n s')"

text \<open>
  The initial choice of interpolation points, the same statements in both functions.
  \<open>seed_points\<close> is everything after \<^verbatim>\<open>ptsA = int(pts * A / (A-B+1))\<close>, with the integer
  \<open>ptsA0\<close> that this statement has produced: the floor of 2, the count \<open>ptsB\<close>, and the two
  arrays. \<^verbatim>\<open>np.zeros\<close> of a negative size raises ValueError, and \<open>A\<close> and \<open>B\<close> are Python
  floats, so a zero divisor raises ZeroDivisionError.
\<close>

definition seed_points :: "real \<Rightarrow> real \<Rightarrow> int \<Rightarrow> int \<Rightarrow> error + (real list \<times> real list)" where
  "seed_points A B pts ptsA0 =
     (let ptsA = (if ptsA0 < 2 then 2 else ptsA0);
          ptsB = pts - ptsA
      in if ptsB + 1 = 0 then Inl ZeroDivisionError
         else if ptsB < 0 then Inl ValueError
         else Inr
           (map (\<lambda>k. real k * (A / real_of_int (ptsA + 1))) [1..<nat ptsA + 1] @
            map (\<lambda>k. B + real k * ((1 - B) / real_of_int (ptsB + 1))) [1..<nat ptsB + 1],
            replicate (nat ptsA) 1 @ replicate (nat ptsB) 0))"

text \<open>
  In \<open>initial_points\<close> the quotient \<^verbatim>\<open>pts * A / (A-B+1)\<close> is formed in exact arithmetic. The
  machine forms it in doubles, and where the exact quotient is an integer or next to one
  the truncation can give the neighbouring integer; what is proved about the layout of
  the points is therefore proved of \<open>seed_points\<close>, for any count.
\<close>

definition initial_points :: "real \<Rightarrow> real \<Rightarrow> int \<Rightarrow> error + (real list \<times> real list)" where
  "initial_points A B order =
     (let pts = order + 2
      in if A - B + 1 = 0 then Inl ZeroDivisionError
         else seed_points A B pts (py_int (real_of_int pts * A / (A - B + 1))))"

text \<open>\<^verbatim>\<open>return p, data\<close>: \<open>p\<close> is read, which fails when no turn of the loop assigned it.\<close>

definition return_p_data :: "fit_state \<Rightarrow> error + (real list \<times> data)" where
  "return_p_data s = (case poly s of None \<Rightarrow> Inl UnboundLocalError | Some p \<Rightarrow> Inr (p, dat s))"

definition run_fit ::
  "(fit_state \<Rightarrow> error + fit_state) \<Rightarrow> real \<Rightarrow> real \<Rightarrow> int \<Rightarrow> int \<Rightarrow> error + (real list \<times> data)" where
  "run_fit body A B order iterations =
     (case initial_points A B order of
        Inl ex \<Rightarrow> Inl ex
      | Inr (x, y) \<Rightarrow>
          (case iterate body (nat iterations) \<lparr>xs = x, ys = y, poly = None, dat = data_empty\<rparr> of
             Inl ex \<Rightarrow> Inl ex
           | Inr s \<Rightarrow> return_p_data s))"

definition remez_fit :: "real \<Rightarrow> real \<Rightarrow> int \<Rightarrow> int \<Rightarrow> error + (real list \<times> data)" where
  "remez_fit A B order iterations =
     (if order < 3 then Inl ValueError
      else run_fit (remez_body A B order) A B order iterations)"

definition remez_fit2 :: "real \<Rightarrow> real \<Rightarrow> real \<Rightarrow> int \<Rightarrow> int \<Rightarrow> error + (real list \<times> data)" where
  "remez_fit2 A B Aweight order iterations =
     run_fit (remez_body2 A B Aweight order) A B order iterations"

section \<open>Properties of the solver\<close>

lemma dot_Nil [simp]: "dot [] v = 0" "dot cs [] = 0"
  by (simp_all add: dot_def)

lemma dot_Cons [simp]: "dot (a # cs) (b # v) = a * b + dot cs v"
  by (simp add: dot_def)

lemma dot_map2_sub:
  "length cs = length ds \<Longrightarrow>
   dot (map2 (\<lambda>a b. a - m * b) cs ds) v = dot cs v - m * dot ds v"
proof (induction cs ds arbitrary: v rule: list_induct2)
  case Nil
  then show ?case by simp
next
  case (Cons a cs d ds)
  then show ?case by (cases v) (simp_all add: algebra_simps)
qed

lemma pivot_index_less: "col \<noteq> [] \<Longrightarrow> pivot_index col < length col"
  by (induction col rule: pivot_index.induct) (auto simp: Let_def)

lemma set_remove_nth:
  "i < length rows \<Longrightarrow> set rows = insert (rows ! i) (set (take i rows @ drop (Suc i) rows))"
proof -
  assume "i < length rows"
  then have "rows = take i rows @ rows ! i # drop (Suc i) rows"
    by (rule id_take_nth_drop)
  then have "set rows = set (take i rows @ rows ! i # drop (Suc i) rows)"
    by simp
  then show ?thesis by simp
qed

lemma linalg_solve_Some_step:
  assumes "linalg_solve rows = Some v" and "rows \<noteq> []"
  shows "\<exists>i v'. i < length rows \<and> lead (rows ! i) \<noteq> 0 \<and>
    linalg_solve (map (eliminate (rows ! i)) (take i rows @ drop (Suc i) rows)) = Some v' \<and>
    v = (snd (rows ! i) - dot (tl (fst (rows ! i))) v') / lead (rows ! i) # v'"
proof -
  obtain r rs where rows: "rows = r # rs"
    using assms(2) by (cases rows) auto
  let ?i = "pivot_index (map lead rows)"
  have "?i < length rows"
    using pivot_index_less [of "map lead rows"] assms(2) by simp
  moreover from assms(1) have "lead (rows ! ?i) \<noteq> 0 \<and>
    (\<exists>v'. linalg_solve (map (eliminate (rows ! ?i)) (take ?i rows @ drop (Suc ?i) rows)) = Some v' \<and>
    v = (snd (rows ! ?i) - dot (tl (fst (rows ! ?i))) v') / lead (rows ! ?i) # v')"
    unfolding rows by (auto simp: Let_def split: if_splits option.splits)
  ultimately show ?thesis by blast
qed

lemma eliminate_sound:
  assumes len: "length (fst r) = Suc n" "length (fst pr) = Suc n"
    and pv: "lead pr \<noteq> 0"
    and red: "dot (fst (eliminate pr r)) v' = snd (eliminate pr r)"
  shows "dot (fst r) ((snd pr - dot (tl (fst pr)) v') / lead pr # v') = snd r"
proof -
  obtain a cs where r: "fst r = a # cs" and cs: "length cs = n"
    using len(1) by (cases "fst r") auto
  obtain b ds where p: "fst pr = b # ds" and ds: "length ds = n"
    using len(2) by (cases "fst pr") auto
  have b: "b \<noteq> 0" using pv p by (simp add: lead_def)
  from red have "dot cs v' - a / b * dot ds v' = snd r - a / b * snd pr"
    using dot_map2_sub [of cs ds "a / b" v'] cs ds
    by (simp add: eliminate_def lead_def r p Let_def)
  then show ?thesis
    using b by (simp add: r p lead_def field_simps)
qed

lemma linalg_solve_sound:
  "linalg_solve rows = Some v \<Longrightarrow> \<forall>r\<in>set rows. length (fst r) = length rows \<Longrightarrow>
   length v = length rows \<and> (\<forall>r\<in>set rows. dot (fst r) v = snd r)"
proof (induction "length rows" arbitrary: rows v)
  case 0
  then show ?case by simp
next
  case (Suc n)
  then have "rows \<noteq> []" by auto
  with Suc.prems(1) obtain i v'
    where i: "i < length rows" and pv: "lead (rows ! i) \<noteq> 0"
      and rec: "linalg_solve (map (eliminate (rows ! i)) (take i rows @ drop (Suc i) rows)) = Some v'"
      and v: "v = (snd (rows ! i) - dot (tl (fst (rows ! i))) v') / lead (rows ! i) # v'"
    using linalg_solve_Some_step by blast
  let ?pr = "rows ! i"
  let ?rest = "take i rows @ drop (Suc i) rows"
  have n: "length rows = Suc n" using Suc.hyps(2) by simp
  have lrest: "length ?rest = n" using i n by simp
  have setrows: "set rows = insert ?pr (set ?rest)"
    using i by (rule set_remove_nth)
  have lens: "length (fst r') = Suc n" if "r' \<in> set rows" for r'
    using Suc.prems(2) that n by simp
  have lpr: "length (fst ?pr) = Suc n"
    using lens setrows by blast
  have "\<forall>q\<in>set (map (eliminate ?pr) ?rest). length (fst q) = length (map (eliminate ?pr) ?rest)"
  proof
    fix q assume "q \<in> set (map (eliminate ?pr) ?rest)"
    then obtain r' where r': "r' \<in> set ?rest" and q: "q = eliminate ?pr r'" by auto
    have "length (fst r') = Suc n" using r' lens setrows by blast
    then show "length (fst q) = length (map (eliminate ?pr) ?rest)"
      using lpr lrest by (simp add: q eliminate_def Let_def)
  qed
  with Suc.hyps(1) [of "map (eliminate ?pr) ?rest" v'] rec lrest
  have lv': "length v' = n"
    and sol: "\<forall>q\<in>set (map (eliminate ?pr) ?rest). dot (fst q) v' = snd q"
    by simp_all
  have "dot (fst r') v = snd r'" if r': "r' \<in> set rows" for r'
  proof (cases "r' \<in> set ?rest")
    case True
    then have "eliminate ?pr r' \<in> set (map (eliminate ?pr) ?rest)"
      unfolding set_map by (rule imageI)
    then have "dot (fst (eliminate ?pr r')) v' = snd (eliminate ?pr r')"
      using sol by blast
    with lens [OF r'] lpr pv show ?thesis
      unfolding v by (rule eliminate_sound)
  next
    case False
    with r' setrows have eq: "r' = ?pr" by auto
    obtain b ds where p: "fst ?pr = b # ds"
      using lpr by (cases "fst ?pr") auto
    then show ?thesis
      using pv by (simp add: eq v lead_def)
  qed
  then show ?case
    using lv' n by (simp add: v)
qed


lemma dot_powers:
  "dot (map (\<lambda>k. s * t ^ k) [0..<length p]) p = s * polyval p t"
proof (induction p arbitrary: s)
  case Nil
  then show ?case by simp
next
  case (Cons c cs)
  have "[0..<length (c # cs)] = 0 # map Suc [0..<length cs]"
    by (simp add: upt_conv_Cons map_Suc_upt del: upt_Suc)
  then have "dot (map (\<lambda>k. s * t ^ k) [0..<length (c # cs)]) (c # cs)
      = s * c + dot (map (\<lambda>k. (s * t) * t ^ k) [0..<length cs]) cs"
    by (simp add: comp_def mult.assoc)
  also have "\<dots> = s * c + (s * t) * polyval cs t"
    by (simp only: Cons.IH)
  finally show ?case by (simp add: algebra_simps)
qed

lemma dot_append:
  "length cs = length v \<Longrightarrow> dot (cs @ [c]) (v @ [e]) = dot cs v + c * e"
  by (induction cs v rule: list_induct2) simp_all

lemma dot_ext_row:
  assumes "length v = Suc n"
  shows "dot (map (\<lambda>k. t ^ k) [0..<n] @ [c]) v = polyval (butlast v) t + c * last v"
proof -
  from assms have "v \<noteq> []" by auto
  then have v: "v = butlast v @ [last v]" by simp
  have len: "length (butlast v) = n" using assms by simp
  have "dot (map (\<lambda>k. t ^ k) [0..<n] @ [c]) (butlast v @ [last v])
      = dot (map (\<lambda>k. t ^ k) [0..<n]) (butlast v) + c * last v"
    by (rule dot_append) (use assms in simp)
  also have "dot (map (\<lambda>k. t ^ k) [0..<n]) (butlast v) = polyval (butlast v) t"
    using dot_powers [of 1 t "butlast v"] assms by simp
  finally show ?thesis using v by simp
qed

lemma ext_matrix_length [simp]: "length (ext_matrix col x) = length x"
  by (simp add: ext_matrix_def)

lemma ext_matrix_nth:
  "i < length x \<Longrightarrow>
   ext_matrix col x ! i = map (\<lambda>k. (x ! i) ^ k) [0..<length x - 1] @ [col i]"
  by (simp add: ext_matrix_def)

lemma ext_matrix_row_length:
  "x \<noteq> [] \<Longrightarrow> r \<in> set (ext_matrix col x) \<Longrightarrow> length r = length x"
  by (cases x) (auto simp: ext_matrix_def)

lemma solve_col_identity:
  assumes "solve_col col x y = Inr (p, e)"
  shows "x \<noteq> [] \<and> length y = length x \<and> length p = length x - 1 \<and>
    (\<exists>eps. e = \<bar>eps\<bar> \<and> (\<forall>i<length x. polyval p (x ! i) + col i * eps = y ! i))"
proof -
  from assms have x: "x \<noteq> []" and y: "length y = length x"
    by (auto simp: solve_col_def split: if_splits)
  let ?rows = "zip (ext_matrix col x) y"
  from assms x y obtain v where v: "linalg_solve ?rows = Some v"
    and p: "p = butlast v" and e: "e = \<bar>last v\<bar>"
    by (auto simp: solve_col_def split: option.splits)
  have len: "length ?rows = length x" using y by simp
  have "\<forall>r\<in>set ?rows. length (fst r) = length ?rows"
  proof
    fix r assume "r \<in> set ?rows"
    then have "fst r \<in> set (ext_matrix col x)"
      by (metis prod.collapse set_zip_leftD)
    then show "length (fst r) = length ?rows"
      using ext_matrix_row_length [OF x] len by simp
  qed
  with v have lv: "length v = length x" and sol: "\<forall>r\<in>set ?rows. dot (fst r) v = snd r"
    using linalg_solve_sound [of ?rows v] len by simp_all
  have "polyval p (x ! i) + col i * last v = y ! i" if i: "i < length x" for i
  proof -
    have "?rows ! i \<in> set ?rows" using i len by (intro nth_mem) simp
    then have "dot (fst (?rows ! i)) v = snd (?rows ! i)" using sol by blast
    moreover have "?rows ! i = (ext_matrix col x ! i, y ! i)" using i y by simp
    moreover have "length v = Suc (length x - 1)" using lv x by (cases x) auto
    ultimately show ?thesis
      using i by (simp add: ext_matrix_nth dot_ext_row p)
  qed
  then show ?thesis using x y lv e p by auto
qed

subsection \<open>Evaluating the solver\<close>

lemmas solve_eval = solve_def solve2_def weigh_def solve_col_def ext_matrix_def
  linalg_solve.simps Let_def eliminate_def lead_def upt_rec_numeral nth_Cons_numeral

lemma solve_example:
  "solve [1/10, 1/5, 31/40, 17/20, 37/40] [1, 1, 0, 0, 0] =
   Inr ([1212856 / 1308879, 2106020 / 1308879, - (10033600 / 1308879), 6880000 / 1308879],
        2347 / 145431)"
  by (simp add: solve_eval)

lemma solve2_example:
  "solve2 (3/10) 10 [1/10, 1/5, 31/40, 17/20, 37/40] [1, 1, 0, 0, 0] =
   Inr ([10549141 / 12196332, 6665945 / 3049083, - (26736400 / 3049083), 17848000 / 3049083],
        11735 / 677574)"
  by (simp add: solve_eval)

text \<open>
  Claim C1, as the code has it. Whenever \<^verbatim>\<open>solve\<close> (or the solver inlined in \<^verbatim>\<open>remez_fit2\<close>)
  returns \<open>(p, e)\<close> on abscissas \<open>x\<close> and ordinates \<open>y\<close>, the polynomial has
  \<open>length x - 1\<close> coefficients, \<open>e\<close> is non-negative, and there is a signed value
  \<open>eps\<close> with \<open>e = \<bar>eps\<bar>\<close> such that at every point
  \<open>p(x\<^sub>i) + (-1)\<^sup>i * eps = y\<^sub>i\<close>; in the weighted solver the last term is
  \<open>(-1)\<^sup>i * weigh(x\<^sub>i) * eps\<close>, where \<open>weigh\<close> is \<open>1/Aweight\<close> on \<open>x \<le> A\<close> and 1 elsewhere.
\<close>

theorem solve_interpolation_identity:
  "(solve x y = Inr (p, e) \<longrightarrow>
      length p = length x - 1 \<and> 0 \<le> e \<and>
      (\<exists>eps. e = \<bar>eps\<bar> \<and> (\<forall>i<length x. polyval p (x ! i) + (- 1) ^ i * eps = y ! i))) \<and>
   (solve2 A Aweight x y = Inr (p, e) \<longrightarrow>
      length p = length x - 1 \<and> 0 \<le> e \<and>
      (\<exists>eps. e = \<bar>eps\<bar> \<and>
         (\<forall>i<length x. polyval p (x ! i) + (- 1) ^ i * weigh A Aweight (x ! i) * eps = y ! i)))"
proof (intro conjI impI)
  assume "solve x y = Inr (p, e)"
  then have s: "solve_col (\<lambda>i. (- 1) ^ i) x y = Inr (p, e)" by (simp add: solve_def)
  from solve_col_identity [OF s] show "length p = length x - 1" by simp
  from solve_col_identity [OF s] show "0 \<le> e" by auto
  from solve_col_identity [OF s]
  show "\<exists>eps. e = \<bar>eps\<bar> \<and> (\<forall>i<length x. polyval p (x ! i) + (- 1) ^ i * eps = y ! i)"
    by simp
next
  assume "solve2 A Aweight x y = Inr (p, e)"
  then have s: "solve_col (\<lambda>i. (- 1) ^ i * weigh A Aweight (x ! i)) x y = Inr (p, e)"
    by (simp add: solve2_def)
  from solve_col_identity [OF s] show "length p = length x - 1" by simp
  from solve_col_identity [OF s] show "0 \<le> e" by auto
  from solve_col_identity [OF s]
  show "\<exists>eps. e = \<bar>eps\<bar> \<and>
    (\<forall>i<length x. polyval p (x ! i) + (- 1) ^ i * weigh A Aweight (x ! i) * eps = y ! i)"
    by simp
qed

text \<open>
  The identity at the initial points of \<open>A = 0.3\<close>, \<open>B = 0.7\<close>, \<open>order = 3\<close>, for
  both solvers (the weighted one with \<open>Aweight = 10\<close>).
\<close>

theorem solve_interpolation_identity_witness:
  "solve [1/10, 1/5, 31/40, 17/20, 37/40] [1, 1, 0, 0, 0] =
     Inr ([1212856 / 1308879, 2106020 / 1308879, - (10033600 / 1308879), 6880000 / 1308879],
          2347 / 145431) \<and>
   (\<exists>eps. 2347 / 145431 = \<bar>eps\<bar> \<and>
      (\<forall>i<length ([1/10, 1/5, 31/40, 17/20, 37/40] :: real list).
         polyval [1212856 / 1308879, 2106020 / 1308879, - (10033600 / 1308879), 6880000 / 1308879]
           ([1/10, 1/5, 31/40, 17/20, 37/40] ! i) + (- 1) ^ i * eps = [1, 1, 0, 0, 0] ! i)) \<and>
   solve2 (3/10) 10 [1/10, 1/5, 31/40, 17/20, 37/40] [1, 1, 0, 0, 0] =
     Inr ([10549141 / 12196332, 6665945 / 3049083, - (26736400 / 3049083), 17848000 / 3049083],
          11735 / 677574) \<and>
   (\<exists>eps. 11735 / 677574 = \<bar>eps\<bar> \<and>
      (\<forall>i<length ([1/10, 1/5, 31/40, 17/20, 37/40] :: real list).
         polyval [10549141 / 12196332, 6665945 / 3049083, - (26736400 / 3049083), 17848000 / 3049083]
           ([1/10, 1/5, 31/40, 17/20, 37/40] ! i) +
         (- 1) ^ i * weigh (3/10) 10 ([1/10, 1/5, 31/40, 17/20, 37/40] ! i) * eps = [1, 1, 0, 0, 0] ! i))"
proof -
  note a = solve_interpolation_identity
    [of "[1/10, 1/5, 31/40, 17/20, 37/40]" "[1, 1, 0, 0, 0]"
        "[1212856 / 1308879, 2106020 / 1308879, - (10033600 / 1308879), 6880000 / 1308879]"
        "2347 / 145431" "3/10" 10, THEN conjunct1, THEN mp, OF solve_example,
     THEN conjunct2, THEN conjunct2]
  note b = solve_interpolation_identity
    [of "[1/10, 1/5, 31/40, 17/20, 37/40]" "[1, 1, 0, 0, 0]"
        "[10549141 / 12196332, 6665945 / 3049083, - (26736400 / 3049083), 17848000 / 3049083]"
        "11735 / 677574" "3/10" 10, THEN conjunct2, THEN mp, OF solve2_example,
     THEN conjunct2, THEN conjunct2]
  show ?thesis
    by (intro conjI) (rule solve_example a solve2_example b)+
qed

text \<open>
  Claim C1 as stated, with the non-negative \<open>e\<close> itself in the identity and \<open>W = 1\<close>, fails
  at the first of these points: the solved unknown is negative there.
\<close>

theorem solve_identity_with_abs_counterexample:
  "solve [1/10, 1/5, 31/40, 17/20, 37/40] [1, 1, 0, 0, 0] =
     Inr ([1212856 / 1308879, 2106020 / 1308879, - (10033600 / 1308879), 6880000 / 1308879],
          2347 / 145431) \<and>
   polyval [1212856 / 1308879, 2106020 / 1308879, - (10033600 / 1308879), 6880000 / 1308879]
       ([1/10, 1/5, 31/40, 17/20, 37/40] ! 0) + (- 1) ^ 0 * (2347 / 145431) / 1
     \<noteq> [1, 1, 0, 0, 0] ! 0"
  by (simp add: solve_example)

section \<open>The initial interpolation points\<close>

lemma ratio_bounds:
  assumes "0 < (A::real)" "A < B" "B < 1"
  shows "0 < A / (A - B + 1)" "A / (A - B + 1) < 1"
proof -
  have d: "0 < A - B + 1" using assms by linarith
  show "0 < A / (A - B + 1)" using assms(1) d by simp
  show "A / (A - B + 1) < 1" using assms d by (simp add: divide_less_eq)
qed

lemma ptsA_bounds:
  assumes "0 < (A::real)" "A < B" "B < 1" "1 \<le> order"
  defines "ptsA0 \<equiv> py_int (real_of_int (order + 2) * A / (A - B + 1))"
  shows "0 \<le> ptsA0" "ptsA0 \<le> order + 1"
proof -
  let ?r = "real_of_int (order + 2) * A / (A - B + 1)"
  have pos: "0 < real_of_int (order + 2)" using assms(4) by simp
  have r0: "0 < ?r"
    using mult_pos_pos [OF pos ratio_bounds(1) [OF assms(1-3)]] by simp
  have "real_of_int (order + 2) * (A / (A - B + 1)) < real_of_int (order + 2) * 1"
    using ratio_bounds(2) [OF assms(1-3)] pos by (rule mult_strict_left_mono)
  then have r1: "?r < real_of_int (order + 2)" by simp
  from r0 have eq: "ptsA0 = \<lfloor>?r\<rfloor>" by (simp add: ptsA0_def py_int_def)
  show "0 \<le> ptsA0" using r0 unfolding eq by simp
  have "\<lfloor>?r\<rfloor> < order + 2" using r1 by (simp only: floor_less_iff)
  then show "ptsA0 \<le> order + 1" unfolding eq by simp
qed


lemma initial_points_valid:
  assumes "0 < (A::real)" "A < B" "B < 1" "1 \<le> order"
  defines "ptsA \<equiv> max 2 \<lfloor>real_of_int (order + 2) * A / (A - B + 1)\<rfloor>"
  shows "2 \<le> ptsA" and "ptsA \<le> order + 1"
    and "initial_points A B order =
      Inr (map (\<lambda>k. real k * (A / real_of_int (ptsA + 1))) [1..<nat ptsA + 1] @
           map (\<lambda>k. B + real k * ((1 - B) / real_of_int (order + 2 - ptsA + 1)))
             [1..<nat (order + 2 - ptsA) + 1],
           replicate (nat ptsA) 1 @ replicate (nat (order + 2 - ptsA)) 0)"
proof -
  let ?r = "real_of_int (order + 2) * A / (A - B + 1)"
  have b: "0 \<le> py_int ?r" "py_int ?r \<le> order + 1"
    using ptsA_bounds [OF assms(1-4)] by simp_all
  have d: "A - B + 1 \<noteq> 0" using assms(1-3) by linarith
  have "0 \<le> ?r"
    using assms(1-4) by (intro divide_nonneg_nonneg mult_nonneg_nonneg) simp_all
  then have fl: "py_int ?r = \<lfloor>?r\<rfloor>" by (simp add: py_int_def)
  have eq: "ptsA = (if py_int ?r < 2 then 2 else py_int ?r)"
    unfolding ptsA_def fl by (simp add: max_def)
  show "2 \<le> ptsA" by (simp add: ptsA_def)
  show le: "ptsA \<le> order + 1" using b assms(4) by (simp add: eq)
  then have "order + 2 - ptsA + 1 \<noteq> 0" "\<not> order + 2 - ptsA < 0" by simp_all
  then show "initial_points A B order =
      Inr (map (\<lambda>k. real k * (A / real_of_int (ptsA + 1))) [1..<nat ptsA + 1] @
           map (\<lambda>k. B + real k * ((1 - B) / real_of_int (order + 2 - ptsA + 1)))
             [1..<nat (order + 2 - ptsA) + 1],
           replicate (nat ptsA) 1 @ replicate (nat (order + 2 - ptsA)) 0)"
    using d unfolding initial_points_def seed_points_def Let_def eq [symmetric] by simp
qed






lemma initial_points_example:
  "initial_points (3/10) (7/10) 3 = Inr ([1/10, 1/5, 31/40, 17/20, 37/40], [1, 1, 0, 0, 0])"
  by code_simp




section \<open>The iteration count\<close>

lemma run_fit_no_iterations:
  assumes "initial_points A B order = Inr (x, y)" "iterations \<le> 0"
  shows "run_fit body A B order iterations = Inl UnboundLocalError"
  using assms by (simp add: run_fit_def return_p_data_def)

lemma run_fit_no_iterations_fails:
  assumes "iterations \<le> 0"
  shows "run_fit body A B order iterations \<noteq> Inr r"
  using assms
  by (cases "initial_points A B order")
     (auto simp: run_fit_def return_p_data_def split: prod.splits)

text \<open>
  Claim C10. With a non-positive iteration count neither driver returns a polynomial; on
  valid input (\<open>0 < A < B < 1\<close>, \<open>order \<ge> 3\<close>) the failure is the unbound variable \<open>p\<close> at
  \<^verbatim>\<open>return p, data\<close>.
\<close>

theorem remez_fit_needs_an_iteration:
  assumes "iterations \<le> 0"
  shows "(\<forall>r. remez_fit A B order iterations \<noteq> Inr r) \<and>
         (\<forall>r. remez_fit2 A B Aweight order iterations \<noteq> Inr r) \<and>
         (0 < A \<and> A < B \<and> B < 1 \<and> 3 \<le> order \<longrightarrow>
            remez_fit A B order iterations = Inl UnboundLocalError \<and>
            remez_fit2 A B Aweight order iterations = Inl UnboundLocalError)"
proof (intro conjI impI allI)
  fix r
  show "remez_fit A B order iterations \<noteq> Inr r"
    using run_fit_no_iterations_fails [OF assms] by (simp add: remez_fit_def)
  show "remez_fit2 A B Aweight order iterations \<noteq> Inr r"
    using run_fit_no_iterations_fails [OF assms] by (simp add: remez_fit2_def)
next
  assume v: "0 < A \<and> A < B \<and> B < 1 \<and> 3 \<le> order"
  then have "1 \<le> order" by simp
  with v obtain x y where i: "initial_points A B order = Inr (x, y)"
    using initial_points_valid(3) [of A B order] by blast
  show "remez_fit A B order iterations = Inl UnboundLocalError"
    using v run_fit_no_iterations [OF i assms] by (simp add: remez_fit_def)
  show "remez_fit2 A B Aweight order iterations = Inl UnboundLocalError"
    using run_fit_no_iterations [OF i assms] by (simp add: remez_fit2_def)
qed

theorem remez_fit_needs_an_iteration_witness:
  "remez_fit (2/5) (3/5) 3 0 = Inl UnboundLocalError \<and>
   remez_fit2 (2/5) (3/5) 10 3 0 = Inl UnboundLocalError \<and>
   remez_fit (2/5) (3/5) 3 (- 1) = Inl UnboundLocalError"
  using remez_fit_needs_an_iteration [of 0 "2/5" "3/5" 3 10]
        remez_fit_needs_an_iteration [of "- 1" "2/5" "3/5" 3 10]
  by simp

section \<open>Errors of the solver\<close>








section \<open>The Selecting step, proved\<close>





lemma trim_short: "int (length alt) \<le> order + 2 \<Longrightarrow> trim order alt = Inr alt"
  by (subst trim.simps) simp

lemma trim_long:
  "order + 2 < int (length alt) \<Longrightarrow> alt \<noteq> [] \<Longrightarrow>
   trim order alt =
     trim order (if err_mag (last alt) < err_mag (hd alt) then butlast alt else tl alt)"
  by (subst trim.simps) simp

lemma trim_result:
  "0 \<le> order + 2 \<Longrightarrow>
   \<exists>a alt' b. trim order alt = Inr alt' \<and> alt = a @ alt' @ b \<and>
     length alt' = min (length alt) (nat (order + 2))"
proof (induction order alt rule: trim.induct)
  case (1 order alt)
  show ?case
  proof (cases "order + 2 < int (length alt)")
    case False
    then have "trim order alt = Inr alt" by (simp add: trim_short)
    moreover have "alt = [] @ alt @ []" by simp
    moreover have "length alt = min (length alt) (nat (order + 2))" using False by simp
    ultimately show ?thesis by blast
  next
    case long: True
    with "1.prems" have ne: "alt \<noteq> []" by auto
    show ?thesis
    proof (cases "err_mag (last alt) < err_mag (hd alt)")
      case True
      from "1.IH"(1) [OF long ne True "1.prems"] obtain a alt' b
        where t: "trim order (butlast alt) = Inr alt'" and d: "butlast alt = a @ alt' @ b"
          and l: "length alt' = min (length (butlast alt)) (nat (order + 2))"
        by blast
      have "trim order alt = Inr alt'"
        using trim_long [OF long ne] True t by simp
      moreover have "alt = a @ alt' @ (b @ [last alt])"
        using d ne by (metis append_assoc append_butlast_last_id)
      moreover have "length alt' = min (length alt) (nat (order + 2))"
        using l long by simp
      ultimately show ?thesis by blast
    next
      case False
      from "1.IH"(2) [OF long ne False "1.prems"] obtain a alt' b
        where t: "trim order (tl alt) = Inr alt'" and d: "tl alt = a @ alt' @ b"
          and l: "length alt' = min (length (tl alt)) (nat (order + 2))"
        by blast
      have "trim order alt = Inr alt'"
        using trim_long [OF long ne] False t by simp
      moreover have "alt = (hd alt # a) @ alt' @ b"
        using d ne by (metis append_Cons list.collapse)
      moreover have "length alt' = min (length alt) (nat (order + 2))"
        using l long by simp
      ultimately show ?thesis by blast
    qed
  qed
qed


lemmas select_eval = select_def candidates_def spec_filter_walk_def spec_walk_step_def
  alt_step_def trim.simps



section \<open>The error-extrema locator, proved\<close>

lemma diff_length [simp]: "length (diff zs) = length zs - 1"
  by (induction zs rule: diff.induct) simp_all

lemma diff_nth: "Suc j < length zs \<Longrightarrow> diff zs ! j = zs ! Suc j - zs ! j"
proof (induction zs arbitrary: j rule: diff.induct)
  case (1 a b xs)
  then show ?case by (cases j) simp_all
qed simp_all

lemma nonzero_from_set:
  "set (nonzero_from k ds) = {k + j | j. j < length ds \<and> ds ! j \<noteq> 0}"
proof (induction ds arbitrary: k)
  case Nil
  then show ?case by simp
next
  case (Cons d ds)
  have split: "{k + j | j. j < length (d # ds) \<and> (d # ds) ! j \<noteq> 0} =
      (if d \<noteq> 0 then {k} else {}) \<union> {Suc k + j | j. j < length ds \<and> ds ! j \<noteq> 0}"
  proof (intro set_eqI iffI)
    fix x assume "x \<in> {k + j | j. j < length (d # ds) \<and> (d # ds) ! j \<noteq> 0}"
    then obtain j where j: "x = k + j" "j < length (d # ds)" "(d # ds) ! j \<noteq> 0" by blast
    show "x \<in> (if d \<noteq> 0 then {k} else {}) \<union> {Suc k + j | j. j < length ds \<and> ds ! j \<noteq> 0}"
    proof (cases j)
      case 0
      with j show ?thesis by simp
    next
      case (Suc m)
      with j have "x = Suc k + m" "m < length ds" "ds ! m \<noteq> 0" by simp_all
      then show ?thesis by blast
    qed
  next
    fix x assume "x \<in> (if d \<noteq> 0 then {k} else {}) \<union> {Suc k + j | j. j < length ds \<and> ds ! j \<noteq> 0}"
    then consider "d \<noteq> 0" "x = k" | m where "x = Suc k + m" "m < length ds" "ds ! m \<noteq> 0"
      by (auto split: if_splits)
    then show "x \<in> {k + j | j. j < length (d # ds) \<and> (d # ds) ! j \<noteq> 0}"
    proof cases
      case 1
      then have "x = k + 0" "0 < length (d # ds)" "(d # ds) ! 0 \<noteq> 0" by simp_all
      then show ?thesis by blast
    next
      case 2
      then have "x = k + Suc m" "Suc m < length (d # ds)" "(d # ds) ! Suc m \<noteq> 0" by simp_all
      then show ?thesis by blast
    qed
  qed
  show ?case unfolding split using Cons.IH [of "Suc k"] by simp
qed

lemma nonzero_from_sorted: "sorted_wrt (<) (nonzero_from k ds)"
proof (induction ds arbitrary: k)
  case Nil
  then show ?case by simp
next
  case (Cons d ds)
  have "\<forall>x\<in>set (nonzero_from (Suc k) ds). k < x"
    unfolding nonzero_from_set by auto
  with Cons.IH [of "Suc k"] show ?case by simp
qed

lemma extrema_ix_set:
  "set (extrema_ix y) =
     {i. 1 \<le> i \<and> i + 1 < length y \<and> sgn (y ! i - y ! (i - 1)) \<noteq> sgn (y ! (i + 1) - y ! i)}"
proof -
  let ?s = "map sgn (diff y)"
  have nth: "diff ?s ! j = sgn (y ! (j + 2) - y ! (j + 1)) - sgn (y ! (j + 1) - y ! j)"
    if "j + 2 < length y" for j
    using that by (simp add: diff_nth)
  have len: "length (diff ?s) = length y - 2" by simp
  show ?thesis
  proof (intro set_eqI iffI)
    fix i assume "i \<in> set (extrema_ix y)"
    then obtain j where j: "i = 1 + j" "j < length y - 2" "diff ?s ! j \<noteq> 0"
      unfolding extrema_ix_def nonzero_from_set len by blast
    then have "j + 2 < length y" by simp
    from nth [OF this] j show "i \<in> {i. 1 \<le> i \<and> i + 1 < length y \<and>
        sgn (y ! i - y ! (i - 1)) \<noteq> sgn (y ! (i + 1) - y ! i)}"
      by auto
  next
    fix i assume "i \<in> {i. 1 \<le> i \<and> i + 1 < length y \<and>
        sgn (y ! i - y ! (i - 1)) \<noteq> sgn (y ! (i + 1) - y ! i)}"
    then have i: "1 \<le> i" "i + 1 < length y" "sgn (y ! i - y ! (i - 1)) \<noteq> sgn (y ! (i + 1) - y ! i)"
      by simp_all
    define j where "j = i - 1"
    have ij: "i = 1 + j" "j + 2 < length y" using i by (simp_all add: j_def)
    have "diff ?s ! j \<noteq> 0"
      using nth [OF ij(2)] i(3) unfolding ij(1) by simp
    moreover have "j < length (diff ?s)" using ij(2) by simp
    ultimately show "i \<in> set (extrema_ix y)"
      unfolding extrema_ix_def nonzero_from_set using ij(1) by blast
  qed
qed

lemma extrema_ix_sorted: "sorted_wrt (<) (extrema_ix y)"
  by (simp add: extrema_ix_def nonzero_from_sorted)


lemma grid_point_linear:
  "i \<le> 99 \<Longrightarrow> grid_point lo hi i = lo + real i * ((hi - lo) / 99)"
proof (cases "i = 99")
  case True
  have "lo + 99 * ((hi - lo) / 99) = hi" by (simp add: field_simps)
  then show ?thesis unfolding True grid_point_def by simp
next
  case False
  then show ?thesis by (simp add: grid_point_def)
qed

lemma grid_point_ends [simp]: "grid_point lo hi 0 = lo" "grid_point lo hi 99 = hi"
  by (simp_all add: grid_point_def)

lemma grid_point_mono:
  assumes "lo < hi" "i < j" "j \<le> 99"
  shows "grid_point lo hi i < grid_point lo hi j"
proof -
  have "real i < real j" using assms(2) by simp
  moreover have "0 < (hi - lo) / 99" using assms(1) by simp
  ultimately have "real i * ((hi - lo) / 99) < real j * ((hi - lo) / 99)"
    by (rule mult_strict_right_mono)
  then show ?thesis
    using assms(2,3) by (simp add: grid_point_linear)
qed

lemma grid_point_bounds:
  assumes "lo < hi" "i \<le> 99"
  shows "lo \<le> grid_point lo hi i" "grid_point lo hi i \<le> hi"
proof -
  show "lo \<le> grid_point lo hi i"
  proof (cases "i = 0")
    case False
    then have "grid_point lo hi 0 < grid_point lo hi i"
      using assms by (intro grid_point_mono) simp_all
    then show ?thesis by simp
  qed simp
  show "grid_point lo hi i \<le> hi"
  proof (cases "i = 99")
    case False
    then have "grid_point lo hi i < grid_point lo hi 99"
      using assms by (intro grid_point_mono) simp_all
    then show ?thesis by simp
  qed simp
qed

lemma linspace_100: "linspace lo hi 100 = map (grid_point lo hi) [0..<100]"
proof (rule nth_equalityI)
  show "length (linspace lo hi 100) = length (map (grid_point lo hi) [0..<100])"
    by (simp add: linspace_def)
next
  fix i assume "i < length (linspace lo hi 100)"
  then have i: "i < 100" by (simp add: linspace_def)
  show "linspace lo hi 100 ! i = map (grid_point lo hi) [0..<100] ! i"
  proof (cases "i < 99")
    case True
    then show ?thesis
      using i by (simp add: linspace_def nth_append grid_point_def)
  next
    case False
    with i have "i = 99" by simp
    then show ?thesis
      by (simp add: linspace_def nth_append)
  qed
qed

lemma turning_weak: "turning f i \<Longrightarrow> spec_weak_extremum f i"
  unfolding turning_def spec_weak_extremum_def
  by (cases "f i - f (i - 1)" "0::real" rule: linorder_cases;
      cases "f (i + 1) - f i" "0::real" rule: linorder_cases) simp_all

lemma strict_turning: "spec_local_extremum f i \<Longrightarrow> turning f i"
  unfolding turning_def spec_local_extremum_def by auto

lemma interval_extrema_contents:
  fixes p :: "real list"
  defines "E \<equiv> \<lambda>lo hi val i. val - polyval p (grid_point lo hi i)"
  shows "\<exists>ix. interval_extrema p lo hi val =
           (map (grid_point lo hi) (0 # ix @ [99]), map (E lo hi val) (0 # ix @ [99])) \<and>
         sorted_wrt (<) ix \<and>
         set ix = {i. 1 \<le> i \<and> i < 99 \<and> turning (E lo hi val) i}"
proof -
  let ?g = "grid_point lo hi" and ?E = "E lo hi val"
  let ?t = "linspace lo hi 100"
  let ?y = "error_curve p val ?t"
  let ?ix = "extrema_ix ?y"
  have t: "?t = map ?g [0..<100]" by (rule linspace_100)
  have y: "?y = map ?E [0..<100]"
    by (simp add: error_curve_def t E_def comp_def)
  have tn: "?t ! i = ?g i" if "i < 100" for i using that by (simp add: t)
  have yn: "?y ! i = ?E i" if "i < 100" for i using that by (simp add: y)
  have ly: "length ?y = 100" by (simp add: y)
  have set_ix: "set ?ix = {i. 1 \<le> i \<and> i < 99 \<and> turning ?E i}"
  proof (intro set_eqI iffI)
    fix i assume "i \<in> set ?ix"
    then have "1 \<le> i" "i + 1 < 100"
      "sgn (?y ! i - ?y ! (i - 1)) \<noteq> sgn (?y ! (i + 1) - ?y ! i)"
      unfolding extrema_ix_set ly by simp_all
    then show "i \<in> {i. 1 \<le> i \<and> i < 99 \<and> turning ?E i}"
      by (simp add: yn turning_def)
  next
    fix i assume "i \<in> {i. 1 \<le> i \<and> i < 99 \<and> turning ?E i}"
    then have "1 \<le> i" "i < 99" "turning ?E i" by simp_all
    then show "i \<in> set ?ix"
      unfolding extrema_ix_set ly by (simp add: yn turning_def)
  qed
  have small: "i < 100" if "i \<in> set ?ix" for i
    using that unfolding set_ix by simp
  have m1: "map ((!) ?t) ?ix = map ?g ?ix"
    by (rule map_cong [OF refl]) (simp add: tn small)
  have m2: "map ((!) ?y) ?ix = map ?E ?ix"
    by (rule map_cong [OF refl]) (simp add: yn small)
  have hd_t: "hd ?t = ?g 0" and last_t: "last ?t = ?g 99"
    unfolding t by (simp_all add: hd_map last_map)
  have hd_y: "hd ?y = ?E 0" and last_y: "last ?y = ?E 99"
    unfolding y by (simp_all add: hd_map last_map)
  have "interval_extrema p lo hi val =
      (map ?g (0 # ?ix @ [99]), map ?E (0 # ?ix @ [99]))"
    unfolding interval_extrema_def Let_def m1 m2 hd_t last_t hd_y last_y by simp
  with set_ix extrema_ix_sorted [of ?y] show ?thesis by blast
qed


lemma interval_locations_sorted:
  assumes "lo < hi" "sorted_wrt (<) ix" "\<forall>i\<in>set ix. 1 \<le> i \<and> i < 99"
  shows "sorted_wrt (<) (map (grid_point lo hi) (0 # ix @ [99]))"
proof -
  have l: "sorted_wrt (<) (0 # ix @ [99 :: nat])"
    using assms(2,3) by (auto simp: sorted_wrt_append)
  have le: "\<forall>i\<in>set (0 # ix @ [99 :: nat]). i \<le> 99"
    using assms(3) by auto
  have "sorted_wrt (\<lambda>a b. grid_point lo hi a < grid_point lo hi b) (0 # ix @ [99])"
    using l
  proof (rule sorted_wrt_mono_rel [rotated])
    fix a b assume "a \<in> set (0 # ix @ [99])" "b \<in> set (0 # ix @ [99])" "a < b"
    then show "grid_point lo hi a < grid_point lo hi b"
      using le assms(1) by (intro grid_point_mono) auto
  qed
  then show ?thesis by (simp only: sorted_wrt_map)
qed

lemma interval_locations_inside:
  assumes "lo < hi" "\<forall>i\<in>set ix. 1 \<le> i \<and> i < 99"
  shows "\<forall>u\<in>set (map (grid_point lo hi) (0 # ix @ [99])). lo \<le> u \<and> u \<le> hi"
proof
  fix u assume "u \<in> set (map (grid_point lo hi) (0 # ix @ [99]))"
  then have "u \<in> grid_point lo hi ` set (0 # ix @ [99])" by (simp only: set_map)
  then obtain i where "i \<in> set (0 # ix @ [99])" "u = grid_point lo hi i" by (rule imageE)
  moreover from this assms(2) have "i \<le> 99" by auto
  ultimately show "lo \<le> u \<and> u \<le> hi"
    using grid_point_bounds [OF assms(1)] by simp
qed

text \<open>
  Claim C7. For edges \<open>0 < A < B < 1\<close> the locator returns, for the region \<open>[0, A]\<close> and then
  for the region \<open>[B, 1]\<close>, the two end samples of the region and in between the interior
  samples at which the sampled error \<open>D - P\<close> turns; the errors are those of the reported
  locations. Every reported interior sample is a local maximum or minimum of the sampled
  error, every strict one is reported, and the whole list of locations is strictly
  increasing, so each region is in increasing order and \<open>[0, A]\<close> comes first.
\<close>

theorem find_error_extrema_contents:
  assumes "0 < A" "A < B" "B < 1"
  shows "\<exists>ixA ixB.
     find_error_extrema p A B =
       (map (grid_point 0 A) (0 # ixA @ [99]) @ map (grid_point B 1) (0 # ixB @ [99]),
        map (\<lambda>i. 1 - polyval p (grid_point 0 A i)) (0 # ixA @ [99]) @
        map (\<lambda>i. 0 - polyval p (grid_point B 1 i)) (0 # ixB @ [99])) \<and>
     grid_point 0 A 0 = 0 \<and> grid_point 0 A 99 = A \<and>
     grid_point B 1 0 = B \<and> grid_point B 1 99 = 1 \<and>
     sorted_wrt (<) ixA \<and> sorted_wrt (<) ixB \<and>
     set ixA = {i. 1 \<le> i \<and> i < 99 \<and> turning (\<lambda>i. 1 - polyval p (grid_point 0 A i)) i} \<and>
     set ixB = {i. 1 \<le> i \<and> i < 99 \<and> turning (\<lambda>i. 0 - polyval p (grid_point B 1 i)) i} \<and>
     (\<forall>i\<in>set ixA. spec_weak_extremum (\<lambda>i. 1 - polyval p (grid_point 0 A i)) i) \<and>
     (\<forall>i\<in>set ixB. spec_weak_extremum (\<lambda>i. 0 - polyval p (grid_point B 1 i)) i) \<and>
     (\<forall>i. 1 \<le> i \<and> i < 99 \<and> spec_local_extremum (\<lambda>i. 1 - polyval p (grid_point 0 A i)) i
          \<longrightarrow> i \<in> set ixA) \<and>
     (\<forall>i. 1 \<le> i \<and> i < 99 \<and> spec_local_extremum (\<lambda>i. 0 - polyval p (grid_point B 1 i)) i
          \<longrightarrow> i \<in> set ixB) \<and>
     sorted_wrt (<) (fst (find_error_extrema p A B))"
proof -
  let ?EA = "\<lambda>i. 1 - polyval p (grid_point 0 A i)"
  let ?EB = "\<lambda>i. 0 - polyval p (grid_point B 1 i)"
  from interval_extrema_contents [of p 0 A 1] obtain ixA where
    a: "interval_extrema p 0 A 1 = (map (grid_point 0 A) (0 # ixA @ [99]), map ?EA (0 # ixA @ [99]))"
    and sa: "sorted_wrt (<) ixA" and seta: "set ixA = {i. 1 \<le> i \<and> i < 99 \<and> turning ?EA i}"
    by blast
  from interval_extrema_contents [of p B 1 0] obtain ixB where
    b: "interval_extrema p B 1 0 = (map (grid_point B 1) (0 # ixB @ [99]), map ?EB (0 # ixB @ [99]))"
    and sb: "sorted_wrt (<) ixB" and setb: "set ixB = {i. 1 \<le> i \<and> i < 99 \<and> turning ?EB i}"
    by blast
  have ne: "\<not> (A = 1 \<and> B = 0)" using assms by simp
  have res: "find_error_extrema p A B =
       (map (grid_point 0 A) (0 # ixA @ [99]) @ map (grid_point B 1) (0 # ixB @ [99]),
        map ?EA (0 # ixA @ [99]) @ map ?EB (0 # ixB @ [99]))"
    by (simp only: find_error_extrema_def if_not_P [OF ne] a b Let_def prod.case)
  have ra: "\<forall>i\<in>set ixA. 1 \<le> i \<and> i < 99" and rb: "\<forall>i\<in>set ixB. 1 \<le> i \<and> i < 99"
    unfolding seta setb by simp_all
  have wa: "\<forall>i\<in>set ixA. spec_weak_extremum ?EA i"
    unfolding seta using turning_weak by blast
  have wb: "\<forall>i\<in>set ixB. spec_weak_extremum ?EB i"
    unfolding setb using turning_weak by blast
  have st_a: "\<forall>i. 1 \<le> i \<and> i < 99 \<and> spec_local_extremum ?EA i \<longrightarrow> i \<in> set ixA"
    unfolding seta using strict_turning by blast
  have st_b: "\<forall>i. 1 \<le> i \<and> i < 99 \<and> spec_local_extremum ?EB i \<longrightarrow> i \<in> set ixB"
    unfolding setb using strict_turning by blast
  have la: "sorted_wrt (<) (map (grid_point 0 A) (0 # ixA @ [99]))"
    using assms(1) sa ra by (rule interval_locations_sorted)
  have lb: "sorted_wrt (<) (map (grid_point B 1) (0 # ixB @ [99]))"
    using assms(3) sb rb by (rule interval_locations_sorted)
  have "\<forall>u\<in>set (map (grid_point 0 A) (0 # ixA @ [99])).
        \<forall>v\<in>set (map (grid_point B 1) (0 # ixB @ [99])). u < v"
    using interval_locations_inside [OF assms(1) ra] interval_locations_inside [OF assms(3) rb]
      assms(2) by fastforce
  with la lb have sorted: "sorted_wrt (<) (fst (find_error_extrema p A B))"
    unfolding res fst_conv by (simp only: sorted_wrt_append simp_thms)
  from res sa sb seta setb wa wb st_a st_b sorted show ?thesis
    by (intro exI [of _ ixA] exI [of _ ixB] conjI grid_point_ends)
qed

theorem find_error_extrema_contents_witness:
  "\<exists>ixA ixB.
     find_error_extrema [1, - 3, 2] (2/5) (3/5) =
       (map (grid_point 0 (2/5)) (0 # ixA @ [99]) @ map (grid_point (3/5) 1) (0 # ixB @ [99]),
        map (\<lambda>i. 1 - polyval [1, - 3, 2] (grid_point 0 (2/5) i)) (0 # ixA @ [99]) @
        map (\<lambda>i. 0 - polyval [1, - 3, 2] (grid_point (3/5) 1 i)) (0 # ixB @ [99])) \<and>
     grid_point 0 (2/5) 0 = 0 \<and> grid_point 0 (2/5) 99 = 2/5 \<and>
     grid_point (3/5) 1 0 = 3/5 \<and> grid_point (3/5) 1 99 = 1 \<and>
     sorted_wrt (<) ixA \<and> sorted_wrt (<) ixB \<and>
     set ixA = {i. 1 \<le> i \<and> i < 99 \<and> turning (\<lambda>i. 1 - polyval [1, - 3, 2] (grid_point 0 (2/5) i)) i} \<and>
     set ixB = {i. 1 \<le> i \<and> i < 99 \<and> turning (\<lambda>i. 0 - polyval [1, - 3, 2] (grid_point (3/5) 1 i)) i} \<and>
     (\<forall>i\<in>set ixA. spec_weak_extremum (\<lambda>i. 1 - polyval [1, - 3, 2] (grid_point 0 (2/5) i)) i) \<and>
     (\<forall>i\<in>set ixB. spec_weak_extremum (\<lambda>i. 0 - polyval [1, - 3, 2] (grid_point (3/5) 1 i)) i) \<and>
     (\<forall>i. 1 \<le> i \<and> i < 99 \<and> spec_local_extremum (\<lambda>i. 1 - polyval [1, - 3, 2] (grid_point 0 (2/5) i)) i
          \<longrightarrow> i \<in> set ixA) \<and>
     (\<forall>i. 1 \<le> i \<and> i < 99 \<and> spec_local_extremum (\<lambda>i. 0 - polyval [1, - 3, 2] (grid_point (3/5) 1 i)) i
          \<longrightarrow> i \<in> set ixB) \<and>
     sorted_wrt (<) (fst (find_error_extrema [1, - 3, 2] (2/5) (3/5)))"
  by (rule find_error_extrema_contents [of "2/5" "3/5"]) simp_all

section \<open>The exchange driver, proved\<close>

lemma iterate_Suc_right:
  "iterate body (Suc n) s = (case iterate body n s of Inl ex \<Rightarrow> Inl ex | Inr s' \<Rightarrow> body s')"
proof (induction n arbitrary: s)
  case 0
  then show ?case by (simp split: sum.splits)
next
  case (Suc n)
  show ?case
  proof (cases "body s")
    case (Inl ex)
    then show ?thesis by simp
  next
    case (Inr s1)
    have "iterate body (Suc (Suc n)) s = iterate body (Suc n) s1"
      using Inr by simp
    also have "\<dots> = (case iterate body n s1 of Inl ex \<Rightarrow> Inl ex | Inr s' \<Rightarrow> body s')"
      by (rule Suc.IH)
    also have "iterate body n s1 = iterate body (Suc n) s"
      using Inr by simp
    finally show ?thesis .
  qed
qed

lemma select_total:
  assumes "0 \<le> order + 2"
  shows "\<exists>alt. select w order e le = Inr alt \<and> length alt \<le> nat (order + 2)"
proof -
  from trim_result [OF assms, of "alternations e [] (candidates w le)"]
  obtain a alt' b where "trim order (alternations e [] (candidates w le)) = Inr alt'"
    "length alt' = min (length (alternations e [] (candidates w le))) (nat (order + 2))"
    by blast
  then show ?thesis by (auto simp: select_def)
qed

lemma remez_body_Inr:
  assumes "remez_body A B order s = Inr s'"
  shows "\<exists>p e alt. solve (xs s) (ys s) = Inr (p, e) \<and>
     select (\<lambda>l. 1) order e (find_error_extrema p A B) = Inr alt \<and>
     s' = \<lparr>xs = map loc alt, ys = ordinates A (map loc alt), poly = Some p,
           dat = (dat s)\<lparr>prev_x := Some (xs s), prev_y := Some (ys s),
                           err := Some e, new_x := Some (map loc alt)\<rparr>\<rparr>"
  using assms
  by (auto simp: remez_body_def Let_def split: sum.splits prod.splits)

lemma remez_body2_Inr:
  assumes "remez_body2 A B Aweight order s = Inr s'"
  shows "\<exists>p e alt. solve2 A Aweight (xs s) (ys s) = Inr (p, e) \<and>
     select (weigh A Aweight) order e (find_error_extrema p A B) = Inr alt \<and>
     s' = \<lparr>xs = map loc alt, ys = ordinates A (map loc alt), poly = Some p,
           dat = (dat s)\<lparr>prev_x := Some (xs s), prev_y := Some (ys s),
                           Aerr := Some (e / Aweight), Berr := Some e,
                           new_x := Some (map loc alt)\<rparr>\<rparr>"
  using assms
  by (auto simp: remez_body2_def Let_def split: sum.splits prod.splits)

lemma remez_body_step:
  assumes "solve (xs s) (ys s) = Inr (p, e)" "0 \<le> order + 2"
  shows "\<exists>alt. select (\<lambda>l. 1) order e (find_error_extrema p A B) = Inr alt \<and>
     length alt \<le> nat (order + 2) \<and>
     remez_body A B order s =
       Inr \<lparr>xs = map loc alt, ys = ordinates A (map loc alt), poly = Some p,
            dat = (dat s)\<lparr>prev_x := Some (xs s), prev_y := Some (ys s),
                            err := Some e, new_x := Some (map loc alt)\<rparr>\<rparr>"
proof -
  from select_total [OF assms(2)] obtain alt where
    "select (\<lambda>l. 1) order e (find_error_extrema p A B) = Inr alt" "length alt \<le> nat (order + 2)"
    by blast
  then show ?thesis
    using assms(1) by (auto simp: remez_body_def Let_def)
qed

lemma remez_body2_step:
  assumes "solve2 A Aweight (xs s) (ys s) = Inr (p, e)" "0 \<le> order + 2"
  shows "\<exists>alt. select (weigh A Aweight) order e (find_error_extrema p A B) = Inr alt \<and>
     length alt \<le> nat (order + 2) \<and>
     remez_body2 A B Aweight order s =
       Inr \<lparr>xs = map loc alt, ys = ordinates A (map loc alt), poly = Some p,
            dat = (dat s)\<lparr>prev_x := Some (xs s), prev_y := Some (ys s),
                            Aerr := Some (e / Aweight), Berr := Some e,
                            new_x := Some (map loc alt)\<rparr>\<rparr>"
proof -
  from select_total [OF assms(2)] obtain alt where
    "select (weigh A Aweight) order e (find_error_extrema p A B) = Inr alt"
    "length alt \<le> nat (order + 2)"
    by blast
  then show ?thesis
    using assms(1) by (auto simp: remez_body2_def Let_def)
qed

lemma run_fit_Inr:
  assumes "run_fit body A B order iterations = Inr (p, d)"
  shows "1 \<le> iterations \<and>
    (\<exists>x y s s'. initial_points A B order = Inr (x, y) \<and>
       iterate body (nat iterations - 1) \<lparr>xs = x, ys = y, poly = None, dat = data_empty\<rparr> = Inr s \<and>
       body s = Inr s' \<and> poly s' = Some p \<and> dat s' = d)"
proof -
  from assms obtain x y s' where i: "initial_points A B order = Inr (x, y)"
    and it: "iterate body (nat iterations) \<lparr>xs = x, ys = y, poly = None, dat = data_empty\<rparr> = Inr s'"
    and r: "return_p_data s' = Inr (p, d)"
    by (auto simp: run_fit_def split: sum.splits prod.splits)
  from r have ps: "poly s' = Some p" "dat s' = d"
    by (auto simp: return_p_data_def split: option.splits)
  have "nat iterations \<noteq> 0"
  proof
    assume "nat iterations = 0"
    with it have "s' = \<lparr>xs = x, ys = y, poly = None, dat = data_empty\<rparr>" by simp
    then have "poly s' = None" by simp
    with ps show False by simp
  qed
  then obtain n where n: "nat iterations = Suc n" by (cases "nat iterations") auto
  from it obtain s where "iterate body n \<lparr>xs = x, ys = y, poly = None, dat = data_empty\<rparr> = Inr s"
    "body s = Inr s'"
    unfolding n iterate_Suc_right by (auto split: sum.splits)
  with i ps n show ?thesis by auto
qed

section \<open>A fit whose Selecting step leaves too few points\<close>

lemma interval_extrema_indices:
  "interval_extrema p lo hi val =
     (map (grid_point lo hi)
        (0 # extrema_ix (map (\<lambda>i. val - polyval p (grid_point lo hi i)) [0..<100]) @ [99]),
      map (\<lambda>i. val - polyval p (grid_point lo hi i))
        (0 # extrema_ix (map (\<lambda>i. val - polyval p (grid_point lo hi i)) [0..<100]) @ [99]))"
proof -
  let ?g = "grid_point lo hi" and ?E = "\<lambda>i. val - polyval p (grid_point lo hi i)"
  let ?t = "linspace lo hi 100"
  let ?y = "error_curve p val ?t"
  let ?ix = "extrema_ix ?y"
  have t: "?t = map ?g [0..<100]" by (rule linspace_100)
  have y: "?y = map ?E [0..<100]"
    by (simp add: error_curve_def t comp_def)
  have small: "i < 100" if "i \<in> set ?ix" for i
    using that unfolding extrema_ix_set by (simp add: y)
  have m1: "map ((!) ?t) ?ix = map ?g ?ix"
    by (rule map_cong [OF refl]) (simp add: t small)
  have m2: "map ((!) ?y) ?ix = map ?E ?ix"
    by (rule map_cong [OF refl]) (simp add: y small)
  have hd_t: "hd ?t = ?g 0" and last_t: "last ?t = ?g 99"
    unfolding t by (simp_all add: hd_map last_map)
  have hd_y: "hd ?y = ?E 0" and last_y: "last ?y = ?E 99"
    unfolding y by (simp_all add: hd_map last_map)
  have "interval_extrema p lo hi val = (map ?g (0 # ?ix @ [99]), map ?E (0 # ?ix @ [99]))"
    unfolding interval_extrema_def Let_def m1 m2 hd_t last_t hd_y last_y by simp
  then show ?thesis unfolding y .
qed

lemma upt_100: "[0..<100] = [0, 1, 2, 3, 4, 5, 6, 7, 8, 9, 10, 11, 12, 13, 14, 15, 16, 17, 18, 19, 20, 21, 22, 23, 24, 25, 26, 27, 28, 29, 30, 31, 32, 33, 34, 35, 36, 37, 38, 39, 40, 41, 42, 43, 44, 45, 46, 47, 48, 49, 50, 51, 52, 53, 54, 55, 56, 57, 58, 59, 60, 61, 62, 63, 64, 65, 66, 67, 68, 69, 70, 71, 72, 73, 74, 75, 76, 77, 78, 79, 80, 81, 82, 83, 84, 85, 86, 87, 88, 89, 90, 91, 92, 93, 94, 95, 96, 97, 98, 99]"
  by code_simp

lemma narrow_passband_indices_1:
  "extrema_ix (map (\<lambda>i. 1 - polyval [6189995 / 7205803, 13762560 / 7205803, - (61440000 / 7205803), 110592000 / 7205803, - (69120000 / 7205803)] (grid_point 0 (4/5) i)) [0..<100]) = [26, 49, 50, 73]"
  by (simp add: extrema_ix_def grid_point_def upt_100)

lemma narrow_stopband_indices_1:
  "extrema_ix (map (\<lambda>i. 0 - polyval [6189995 / 7205803, 13762560 / 7205803, - (61440000 / 7205803), 110592000 / 7205803, - (69120000 / 7205803)] (grid_point (17/20) 1 i)) [0..<100]) = []"
  by (simp add: extrema_ix_def grid_point_def upt_100)

lemma narrow_solve2_1:
  "solve2 (4/5) 100 [2 / 15, 4 / 15, 2 / 5, 8 / 15, 2 / 3, 37 / 40] [1, 1, 1, 1, 1, 0] =
     Inr ([6189995 / 7205803, 13762560 / 7205803, - (61440000 / 7205803), 110592000 / 7205803, - (69120000 / 7205803)], 3276800 / 7205803)"
  by (simp add: solve_eval)

lemma narrow_extrema_1:
  "find_error_extrema [6189995 / 7205803, 13762560 / 7205803, - (61440000 / 7205803), 110592000 / 7205803, - (69120000 / 7205803)] (4/5) (17/20) =
     ([0, 104 / 495, 196 / 495, 40 / 99, 292 / 495, 4 / 5, 17 / 20, 1],
      [1015808 / 7205803, - (194238316544 / 25636539298689), 116295368704 / 25636539298689, 116295368704 / 25636539298689, - (194238316544 / 25636539298689), 1015808 / 7205803, - (5334011 / 7205803), 15445 / 7205803])"
  unfolding find_error_extrema_def interval_extrema_indices
    narrow_passband_indices_1 narrow_stopband_indices_1
  by (simp add: grid_point_def)

lemma narrow_select_1:
  "select (weigh (4/5) 100) 4 (3276800 / 7205803)
     ([0, 104 / 495, 196 / 495, 40 / 99, 292 / 495, 4 / 5, 17 / 20, 1],
      [1015808 / 7205803, - (194238316544 / 25636539298689), 116295368704 / 25636539298689, 116295368704 / 25636539298689, - (194238316544 / 25636539298689), 1015808 / 7205803, - (5334011 / 7205803), 15445 / 7205803]) =
   Inr [\<lparr>loc = 0, sign = 1, err_mag = 101580800 / 7205803\<rparr>,
        \<lparr>loc = 104 / 495, sign = - 1, err_mag = 19423831654400 / 25636539298689\<rparr>,
        \<lparr>loc = 4 / 5, sign = 1, err_mag = 101580800 / 7205803\<rparr>,
        \<lparr>loc = 17 / 20, sign = - 1, err_mag = 5334011 / 7205803\<rparr>]"
  by (simp add: select_def candidates_def alt_step_def weigh_def trim.simps)

lemma narrow_body_1:
  "remez_body2 (4/5) (17/20) 100 4 \<lparr>xs = [2 / 15, 4 / 15, 2 / 5, 8 / 15, 2 / 3, 37 / 40], ys = [1, 1, 1, 1, 1, 0], poly = PP, dat = DD\<rparr> =
     Inr \<lparr>xs = [0, 104 / 495, 4 / 5, 17 / 20], ys = [1, 1, 1, 0], poly = Some [6189995 / 7205803, 13762560 / 7205803, - (61440000 / 7205803), 110592000 / 7205803, - (69120000 / 7205803)],
          dat = DD\<lparr>prev_x := Some [2 / 15, 4 / 15, 2 / 5, 8 / 15, 2 / 3, 37 / 40], prev_y := Some [1, 1, 1, 1, 1, 0],
                   Aerr := Some (32768 / 7205803), Berr := Some (3276800 / 7205803), new_x := Some [0, 104 / 495, 4 / 5, 17 / 20]\<rparr>\<rparr>"
  by (simp add: remez_body2_def narrow_solve2_1 narrow_extrema_1 narrow_select_1 ordinates_def Let_def)

lemma narrow_passband_indices_2:
  "extrema_ix (map (\<lambda>i. 1 - polyval [24461017 / 24703961, 3136320 / 24703961, - (3920400 / 24703961)] (grid_point 0 (4/5) i)) [0..<100]) = [49, 50]"
  by (simp add: extrema_ix_def grid_point_def upt_100)

lemma narrow_stopband_indices_2:
  "extrema_ix (map (\<lambda>i. 0 - polyval [24461017 / 24703961, 3136320 / 24703961, - (3920400 / 24703961)] (grid_point (17/20) 1 i)) [0..<100]) = []"
  by (simp add: extrema_ix_def grid_point_def upt_100)

lemma narrow_solve2_2:
  "solve2 (4/5) 100 [0, 104 / 495, 4 / 5, 17 / 20] [1, 1, 1, 0] =
     Inr ([24461017 / 24703961, 3136320 / 24703961, - (3920400 / 24703961)], 24294400 / 24703961)"
  by (simp add: solve_eval)

lemma narrow_extrema_2:
  "find_error_extrema [24461017 / 24703961, 3136320 / 24703961, - (3920400 / 24703961)] (4/5) (17/20) =
     ([0, 196 / 495, 40 / 99, 4 / 5, 17 / 20, 1],
      [242944 / 24703961, - (384256 / 24703961), - (384256 / 24703961), 242944 / 24703961, - (24294400 / 24703961), - (23676937 / 24703961)])"
  unfolding find_error_extrema_def interval_extrema_indices
    narrow_passband_indices_2 narrow_stopband_indices_2
  by (simp add: grid_point_def)

lemma narrow_select_2:
  "select (weigh (4/5) 100) 4 (24294400 / 24703961)
     ([0, 196 / 495, 40 / 99, 4 / 5, 17 / 20, 1],
      [242944 / 24703961, - (384256 / 24703961), - (384256 / 24703961), 242944 / 24703961, - (24294400 / 24703961), - (23676937 / 24703961)]) =
   Inr [\<lparr>loc = 0, sign = 1, err_mag = 24294400 / 24703961\<rparr>,
        \<lparr>loc = 196 / 495, sign = - 1, err_mag = 38425600 / 24703961\<rparr>,
        \<lparr>loc = 4 / 5, sign = 1, err_mag = 24294400 / 24703961\<rparr>,
        \<lparr>loc = 17 / 20, sign = - 1, err_mag = 24294400 / 24703961\<rparr>]"
  by (simp add: select_def candidates_def alt_step_def weigh_def trim.simps)

lemma narrow_body_2:
  "remez_body2 (4/5) (17/20) 100 4 \<lparr>xs = [0, 104 / 495, 4 / 5, 17 / 20], ys = [1, 1, 1, 0], poly = PP, dat = DD\<rparr> =
     Inr \<lparr>xs = [0, 196 / 495, 4 / 5, 17 / 20], ys = [1, 1, 1, 0], poly = Some [24461017 / 24703961, 3136320 / 24703961, - (3920400 / 24703961)],
          dat = DD\<lparr>prev_x := Some [0, 104 / 495, 4 / 5, 17 / 20], prev_y := Some [1, 1, 1, 0],
                   Aerr := Some (242944 / 24703961), Berr := Some (24294400 / 24703961), new_x := Some [0, 196 / 495, 4 / 5, 17 / 20]\<rparr>\<rparr>"
  by (simp add: remez_body2_def narrow_solve2_2 narrow_extrema_2 narrow_select_2 ordinates_def Let_def)

lemma narrow_initial:
  "initial_points (4/5) (17/20) 4 = Inr ([2 / 15, 4 / 15, 2 / 5, 8 / 15, 2 / 3, 37 / 40], [1, 1, 1, 1, 1, 0])"
  by code_simp

lemma narrow_fit_1:
  "remez_fit2 (4/5) (17/20) 100 4 1 =
     Inr ([6189995 / 7205803, 13762560 / 7205803, - (61440000 / 7205803), 110592000 / 7205803, - (69120000 / 7205803)],
      \<lparr>prev_x = Some [2 / 15, 4 / 15, 2 / 5, 8 / 15, 2 / 3, 37 / 40], prev_y = Some [1, 1, 1, 1, 1, 0], err = None,
        Aerr = Some (32768 / 7205803), Berr = Some (3276800 / 7205803),
        new_x = Some [0, 104 / 495, 4 / 5, 17 / 20]\<rparr>)"
  by (simp add: remez_fit2_def run_fit_def narrow_initial narrow_body_1 return_p_data_def
      data_empty_def)

lemma narrow_fit_2:
  "remez_fit2 (4/5) (17/20) 100 4 2 =
     Inr ([24461017 / 24703961, 3136320 / 24703961, - (3920400 / 24703961)],
      \<lparr>prev_x = Some [0, 104 / 495, 4 / 5, 17 / 20], prev_y = Some [1, 1, 1, 0], err = None,
        Aerr = Some (242944 / 24703961), Berr = Some (24294400 / 24703961),
        new_x = Some [0, 196 / 495, 4 / 5, 17 / 20]\<rparr>)"
  by (simp add: remez_fit2_def run_fit_def narrow_initial narrow_body_1 narrow_body_2
      return_p_data_def data_empty_def numeral_2_eq_2)

lemma iterate_invariant:
  assumes "\<And>s s'. P s \<Longrightarrow> body s = Inr s' \<Longrightarrow> P s'"
  shows "P s \<Longrightarrow> iterate body n s = Inr s' \<Longrightarrow> P s'"
proof (induction n arbitrary: s)
  case 0
  then show ?case by simp
next
  case (Suc n)
  then obtain s1 where "body s = Inr s1" "iterate body n s1 = Inr s'"
    by (auto split: sum.splits)
  with Suc.prems(1) assms Suc.IH show ?case by blast
qed

lemma remez_body_keeps_weighted_keys:
  "Aerr (dat s) = None \<and> Berr (dat s) = None \<Longrightarrow> remez_body A B order s = Inr s' \<Longrightarrow>
   Aerr (dat s') = None \<and> Berr (dat s') = None"
  by (auto dest!: remez_body_Inr)

lemma remez_body2_keeps_err_key:
  "err (dat s) = None \<Longrightarrow> remez_body2 A B Aweight order s = Inr s' \<Longrightarrow> err (dat s') = None"
  by (auto dest!: remez_body2_Inr)

lemma remez_fit_Inr:
  assumes "remez_fit A B order iterations = Inr (p, d)"
  shows "3 \<le> order \<and> 1 \<le> iterations \<and>
    (\<exists>x y e alt. prev_x d = Some x \<and> prev_y d = Some y \<and> solve x y = Inr (p, e) \<and>
       err d = Some e \<and> Aerr d = None \<and> Berr d = None \<and>
       select (\<lambda>l. 1) order e (find_error_extrema p A B) = Inr alt \<and>
       new_x d = Some (map loc alt))"
proof -
  from assms have o: "3 \<le> order"
    and r: "run_fit (remez_body A B order) A B order iterations = Inr (p, d)"
    by (auto simp: remez_fit_def split: if_splits)
  from run_fit_Inr [OF r] obtain x y s s' where it: "1 \<le> iterations"
    and i: "iterate (remez_body A B order) (nat iterations - 1)
              \<lparr>xs = x, ys = y, poly = None, dat = data_empty\<rparr> = Inr s"
    and b: "remez_body A B order s = Inr s'" and ps: "poly s' = Some p" "dat s' = d"
    by blast
  have "Aerr (dat s) = None \<and> Berr (dat s) = None"
    using remez_body_keeps_weighted_keys
    by (rule iterate_invariant [where P = "\<lambda>s. Aerr (dat s) = None \<and> Berr (dat s) = None", OF _ _ i])
       (simp_all add: data_empty_def)
  moreover from remez_body_Inr [OF b] obtain p' e alt where
    "solve (xs s) (ys s) = Inr (p', e)"
    "select (\<lambda>l. 1) order e (find_error_extrema p' A B) = Inr alt"
    "s' = \<lparr>xs = map loc alt, ys = ordinates A (map loc alt), poly = Some p',
           dat = (dat s)\<lparr>prev_x := Some (xs s), prev_y := Some (ys s),
                           err := Some e, new_x := Some (map loc alt)\<rparr>\<rparr>"
    by blast
  ultimately show ?thesis
    using o it ps by auto
qed

lemma remez_fit2_Inr:
  assumes "remez_fit2 A B Aweight order iterations = Inr (p, d)"
  shows "1 \<le> iterations \<and>
    (\<exists>x y e alt. prev_x d = Some x \<and> prev_y d = Some y \<and> solve2 A Aweight x y = Inr (p, e) \<and>
       Aerr d = Some (e / Aweight) \<and> Berr d = Some e \<and> err d = None \<and>
       select (weigh A Aweight) order e (find_error_extrema p A B) = Inr alt \<and>
       new_x d = Some (map loc alt))"
proof -
  from assms have r: "run_fit (remez_body2 A B Aweight order) A B order iterations = Inr (p, d)"
    by (simp add: remez_fit2_def)
  from run_fit_Inr [OF r] obtain x y s s' where it: "1 \<le> iterations"
    and i: "iterate (remez_body2 A B Aweight order) (nat iterations - 1)
              \<lparr>xs = x, ys = y, poly = None, dat = data_empty\<rparr> = Inr s"
    and b: "remez_body2 A B Aweight order s = Inr s'" and ps: "poly s' = Some p" "dat s' = d"
    by blast
  have "err (dat s) = None"
    using remez_body2_keeps_err_key
    by (rule iterate_invariant [where P = "\<lambda>s. err (dat s) = None", OF _ _ i])
       (simp_all add: data_empty_def)
  moreover from remez_body2_Inr [OF b] obtain p' e alt where
    "solve2 A Aweight (xs s) (ys s) = Inr (p', e)"
    "select (weigh A Aweight) order e (find_error_extrema p' A B) = Inr alt"
    "s' = \<lparr>xs = map loc alt, ys = ordinates A (map loc alt), poly = Some p',
           dat = (dat s)\<lparr>prev_x := Some (xs s), prev_y := Some (ys s),
                           Aerr := Some (e / Aweight), Berr := Some e,
                           new_x := Some (map loc alt)\<rparr>\<rparr>"
    by blast
  ultimately show ?thesis
    using it ps by auto
qed

text \<open>
  Claim C3, as the code has it. Neither driver looks at the number of candidates that
  survive the Selecting step: whenever the solver has returned, the loop body succeeds, and
  the surviving locations, at most \<open>order + 2\<close> and possibly fewer, are the next
  interpolation points.
\<close>

theorem selecting_shortfall_is_no_error:
  assumes "0 \<le> order + 2"
  shows "(solve (xs s) (ys s) = Inr (p, e) \<longrightarrow>
      (\<exists>alt. select (\<lambda>l. 1) order (e) (find_error_extrema p A B) = Inr alt \<and>
         length alt \<le> nat (order + 2) \<and>
         remez_body A B order s =
           Inr \<lparr>xs = map loc alt, ys = ordinates A (map loc alt), poly = Some p,
                dat = (dat s)\<lparr>prev_x := Some (xs s), prev_y := Some (ys s),
                                err := Some (e), new_x := Some (map loc alt)\<rparr>\<rparr>)) \<and>
   (solve2 A Aweight (xs s) (ys s) = Inr (pw, ew) \<longrightarrow>
      (\<exists>alt. select (weigh A Aweight) order (ew) (find_error_extrema pw A B) = Inr alt \<and>
         length alt \<le> nat (order + 2) \<and>
         remez_body2 A B Aweight order s =
           Inr \<lparr>xs = map loc alt, ys = ordinates A (map loc alt), poly = Some pw,
                dat = (dat s)\<lparr>prev_x := Some (xs s), prev_y := Some (ys s),
                                Aerr := Some ((ew) / Aweight), Berr := Some (ew),
                                new_x := Some (map loc alt)\<rparr>\<rparr>))"
proof (intro conjI impI)
  assume "solve (xs s) (ys s) = Inr (p, e)"
  from remez_body_step [OF this assms, of A B]
  show "\<exists>alt. select (\<lambda>l. 1) order (e) (find_error_extrema p A B) = Inr alt \<and>
         length alt \<le> nat (order + 2) \<and>
         remez_body A B order s =
           Inr \<lparr>xs = map loc alt, ys = ordinates A (map loc alt), poly = Some p,
                dat = (dat s)\<lparr>prev_x := Some (xs s), prev_y := Some (ys s),
                                err := Some (e), new_x := Some (map loc alt)\<rparr>\<rparr>" .
next
  assume "solve2 A Aweight (xs s) (ys s) = Inr (pw, ew)"
  from remez_body2_step [OF this assms, of B]
  show "\<exists>alt. select (weigh A Aweight) order (ew) (find_error_extrema pw A B) = Inr alt \<and>
         length alt \<le> nat (order + 2) \<and>
         remez_body2 A B Aweight order s =
           Inr \<lparr>xs = map loc alt, ys = ordinates A (map loc alt), poly = Some pw,
                dat = (dat s)\<lparr>prev_x := Some (xs s), prev_y := Some (ys s),
                                Aerr := Some ((ew) / Aweight), Berr := Some (ew),
                                new_x := Some (map loc alt)\<rparr>\<rparr>" .
qed

text \<open>The first turn of both loops at \<open>A = 0.3\<close>, \<open>B = 0.7\<close>, \<open>order = 3\<close>.\<close>

theorem selecting_shortfall_is_no_error_witness:
  "((\<exists>alt. select (\<lambda>l. 1) 3 (2347 / 145431) (find_error_extrema [1212856 / 1308879, 2106020 / 1308879, - (10033600 / 1308879), 6880000 / 1308879] (3/10) (7/10)) = Inr alt \<and>
         length alt \<le> nat (3 + 2) \<and>
         remez_body (3/10) (7/10) 3 \<lparr>xs = [1/10, 1/5, 31/40, 17/20, 37/40], ys = [1, 1, 0, 0, 0], poly = None, dat = data_empty\<rparr> =
           Inr \<lparr>xs = map loc alt, ys = ordinates (3/10) (map loc alt), poly = Some [1212856 / 1308879, 2106020 / 1308879, - (10033600 / 1308879), 6880000 / 1308879],
                dat = (dat \<lparr>xs = [1/10, 1/5, 31/40, 17/20, 37/40], ys = [1, 1, 0, 0, 0], poly = None, dat = data_empty\<rparr>)\<lparr>prev_x := Some (xs \<lparr>xs = [1/10, 1/5, 31/40, 17/20, 37/40], ys = [1, 1, 0, 0, 0], poly = None, dat = data_empty\<rparr>), prev_y := Some (ys \<lparr>xs = [1/10, 1/5, 31/40, 17/20, 37/40], ys = [1, 1, 0, 0, 0], poly = None, dat = data_empty\<rparr>),
                                err := Some (2347 / 145431), new_x := Some (map loc alt)\<rparr>\<rparr>)) \<and>
   ((\<exists>alt. select (weigh (3/10) 10) 3 (11735 / 677574) (find_error_extrema [10549141 / 12196332, 6665945 / 3049083, - (26736400 / 3049083), 17848000 / 3049083] (3/10) (7/10)) = Inr alt \<and>
         length alt \<le> nat (3 + 2) \<and>
         remez_body2 (3/10) (7/10) 10 3 \<lparr>xs = [1/10, 1/5, 31/40, 17/20, 37/40], ys = [1, 1, 0, 0, 0], poly = None, dat = data_empty\<rparr> =
           Inr \<lparr>xs = map loc alt, ys = ordinates (3/10) (map loc alt), poly = Some [10549141 / 12196332, 6665945 / 3049083, - (26736400 / 3049083), 17848000 / 3049083],
                dat = (dat \<lparr>xs = [1/10, 1/5, 31/40, 17/20, 37/40], ys = [1, 1, 0, 0, 0], poly = None, dat = data_empty\<rparr>)\<lparr>prev_x := Some (xs \<lparr>xs = [1/10, 1/5, 31/40, 17/20, 37/40], ys = [1, 1, 0, 0, 0], poly = None, dat = data_empty\<rparr>), prev_y := Some (ys \<lparr>xs = [1/10, 1/5, 31/40, 17/20, 37/40], ys = [1, 1, 0, 0, 0], poly = None, dat = data_empty\<rparr>),
                                Aerr := Some ((11735 / 677574) / 10), Berr := Some (11735 / 677574),
                                new_x := Some (map loc alt)\<rparr>\<rparr>))"
proof -
  have h0: "0 \<le> (3::int) + 2" by simp
  have h1: "solve (xs \<lparr>xs = [1/10, 1/5, 31/40, 17/20, 37/40], ys = [1, 1, 0, 0, 0], poly = None, dat = data_empty\<rparr>) (ys \<lparr>xs = [1/10, 1/5, 31/40, 17/20, 37/40], ys = [1, 1, 0, 0, 0], poly = None, dat = data_empty\<rparr>) =
      Inr ([1212856 / 1308879, 2106020 / 1308879, - (10033600 / 1308879), 6880000 / 1308879], 2347 / 145431)"
    by (simp add: solve_example)
  have h2: "solve2 (3/10) 10 (xs \<lparr>xs = [1/10, 1/5, 31/40, 17/20, 37/40], ys = [1, 1, 0, 0, 0], poly = None, dat = data_empty\<rparr>) (ys \<lparr>xs = [1/10, 1/5, 31/40, 17/20, 37/40], ys = [1, 1, 0, 0, 0], poly = None, dat = data_empty\<rparr>) =
      Inr ([10549141 / 12196332, 6665945 / 3049083, - (26736400 / 3049083), 17848000 / 3049083], 11735 / 677574)"
    by (simp add: solve2_example)
  note t = selecting_shortfall_is_no_error [OF h0,
      where s = "\<lparr>xs = [1/10, 1/5, 31/40, 17/20, 37/40], ys = [1, 1, 0, 0, 0], poly = None, dat = data_empty\<rparr>"
        and p = "[1212856 / 1308879, 2106020 / 1308879, - (10033600 / 1308879), 6880000 / 1308879]" and e = "2347 / 145431"
        and pw = "[10549141 / 12196332, 6665945 / 3049083, - (26736400 / 3049083), 17848000 / 3049083]" and ew = "11735 / 677574"
        and A = "3/10" and B = "7/10" and Aweight = 10]
  show ?thesis
    using t [THEN conjunct1, THEN mp, OF h1] t [THEN conjunct2, THEN mp, OF h2]
    by (rule conjI)
qed

text \<open>
  Claim C3 as stated fails on valid input. With \<open>A = 0.8\<close>, \<open>B = 0.85\<close>, \<open>Aweight = 100\<close> and
  \<open>order = 4\<close> only 4 of the 6 required candidates survive the first Selecting step. The
  call with one iteration returns its polynomial and these 4 points; the call with two
  iterations goes on to solve a system of 4 equations and returns a polynomial of degree 2.
\<close>

theorem underdetermined_fit_counterexample:
  "select (weigh (4/5) 100) 4 (3276800 / 7205803)
     (find_error_extrema [6189995 / 7205803, 13762560 / 7205803, - (61440000 / 7205803), 110592000 / 7205803, - (69120000 / 7205803)] (4/5) (17/20)) =
     Inr [\<lparr>loc = 0, sign = 1, err_mag = 101580800 / 7205803\<rparr>, \<lparr>loc = 104 / 495, sign = - 1, err_mag = 19423831654400 / 25636539298689\<rparr>, \<lparr>loc = 4 / 5, sign = 1, err_mag = 101580800 / 7205803\<rparr>, \<lparr>loc = 17 / 20, sign = - 1, err_mag = 5334011 / 7205803\<rparr>] \<and>
   remez_fit2 (4/5) (17/20) 100 4 1 =
     Inr ([6189995 / 7205803, 13762560 / 7205803, - (61440000 / 7205803), 110592000 / 7205803, - (69120000 / 7205803)],
      \<lparr>prev_x = Some [2 / 15, 4 / 15, 2 / 5, 8 / 15, 2 / 3, 37 / 40], prev_y = Some [1, 1, 1, 1, 1, 0], err = None,
        Aerr = Some (32768 / 7205803), Berr = Some (3276800 / 7205803),
        new_x = Some [0, 104 / 495, 4 / 5, 17 / 20]\<rparr>) \<and>
   remez_fit2 (4/5) (17/20) 100 4 2 =
     Inr ([24461017 / 24703961, 3136320 / 24703961, - (3920400 / 24703961)],
      \<lparr>prev_x = Some [0, 104 / 495, 4 / 5, 17 / 20], prev_y = Some [1, 1, 1, 0], err = None,
        Aerr = Some (242944 / 24703961), Berr = Some (24294400 / 24703961),
        new_x = Some [0, 196 / 495, 4 / 5, 17 / 20]\<rparr>)"
  by (simp only: narrow_extrema_1 narrow_select_1 narrow_fit_1 narrow_fit_2 simp_thms)

section \<open>One iteration on the band edges 0.4 and 0.6\<close>

lemma standard_passband_indices:
  "extrema_ix (map (\<lambda>i. 1 - polyval [186741 / 228344, 696015 / 228344, - (329175 / 28543), 455625 / 57086] (grid_point 0 (2/5) i)) [0..<100]) = [39]"
  by (simp add: extrema_ix_def grid_point_def upt_100)

lemma standard_stopband_indices:
  "extrema_ix (map (\<lambda>i. 0 - polyval [186741 / 228344, 696015 / 228344, - (329175 / 28543), 455625 / 57086] (grid_point (3/5) 1 i)) [0..<100]) = [51]"
  by (simp add: extrema_ix_def grid_point_def upt_100)

lemma standard_initial:
  "initial_points (2/5) (3/5) 3 = Inr ([2 / 15, 4 / 15, 7 / 10, 4 / 5, 9 / 10], [1, 1, 0, 0, 0])"
  by code_simp

lemma standard_solve:
  "solve [2 / 15, 4 / 15, 7 / 10, 4 / 5, 9 / 10] [1, 1, 0, 0, 0] =
     Inr ([186741 / 228344, 696015 / 228344, - (329175 / 28543), 455625 / 57086], 8703 / 228344)"
  by (simp add: solve_eval)

lemma standard_extrema:
  "find_error_extrema [186741 / 228344, 696015 / 228344, - (329175 / 28543), 455625 / 57086] (2/5) (3/5) =
     ([0, 26 / 165, 2 / 5, 3 / 5, 133 / 165, 1],
      [41603 / 228344, - (13064049 / 303925864), 67901 / 228344, - (24993 / 114172), 1455634 / 37990733, - (8982 / 28543)])"
  unfolding find_error_extrema_def interval_extrema_indices
    standard_passband_indices standard_stopband_indices
  by (simp add: grid_point_def)

lemma standard_select:
  "select (\<lambda>l. 1) 3 (8703 / 228344)
     ([0, 26 / 165, 2 / 5, 3 / 5, 133 / 165, 1],
      [41603 / 228344, - (13064049 / 303925864), 67901 / 228344, - (24993 / 114172), 1455634 / 37990733, - (8982 / 28543)]) =
   Inr [\<lparr>loc = 26 / 165, sign = - 1, err_mag = 13064049 / 303925864\<rparr>,
        \<lparr>loc = 2 / 5, sign = 1, err_mag = 67901 / 228344\<rparr>,
        \<lparr>loc = 3 / 5, sign = - 1, err_mag = 24993 / 114172\<rparr>,
        \<lparr>loc = 133 / 165, sign = 1, err_mag = 1455634 / 37990733\<rparr>,
        \<lparr>loc = 1, sign = - 1, err_mag = 8982 / 28543\<rparr>]"
  by (simp add: select_def candidates_def alt_step_def weigh_def trim.simps)

lemma standard_fit:
  "remez_fit (2/5) (3/5) 3 1 =
     Inr ([186741 / 228344, 696015 / 228344, - (329175 / 28543), 455625 / 57086],
      \<lparr>prev_x = Some [2 / 15, 4 / 15, 7 / 10, 4 / 5, 9 / 10], prev_y = Some [1, 1, 0, 0, 0], err = Some (8703 / 228344),
        Aerr = None, Berr = None,
        new_x = Some [26 / 165, 2 / 5, 3 / 5, 133 / 165, 1]\<rparr>)"
  by (simp add: remez_fit_def remez_body_def run_fit_def standard_initial standard_solve standard_extrema
      standard_select return_p_data_def data_empty_def ordinates_def Let_def)

section \<open>The check of the order\<close>

lemma remez_fit_order_check:
  "order < 3 \<Longrightarrow> remez_fit A B order iterations = Inl ValueError"
  by (simp add: remez_fit_def)

lemma small_order_initial:
  "initial_points (2/5) (3/5) 2 = Inr ([2/15, 4/15, 11/15, 13/15], [1, 1, 0, 0])"
  by code_simp

lemma small_order_solve2:
  "solve2 (2/5) 10 [2/15, 4/15, 11/15, 13/15] [1, 1, 0, 0] =
     Inr ([97 / 99, 20 / 33, - (25 / 11)], 20 / 99)"
  by (simp add: solve_eval)

text \<open>
  Claim C4. \<^verbatim>\<open>remez_fit\<close> begins with the check \<^verbatim>\<open>if order < 3: raise ValueError\<close>;
  \<^verbatim>\<open>remez_fit2\<close>, the weighted variant, has no such check. With \<open>A = 0.4\<close>, \<open>B = 0.6\<close>,
  \<open>order = 2\<close> and one iteration the first raises ValueError, and the second, with
  \<open>Aweight = 10\<close>, returns a polynomial of degree 2. (The quotient \<open>4 * 0.4 / 0.8\<close> is 2;
  were it rounded below 2, the count of the first region would be raised to 2 again.)
\<close>

theorem remez_fit2_accepts_small_order:
  "remez_fit (2/5) (3/5) 2 1 = Inl ValueError \<and>
   (\<exists>d. remez_fit2 (2/5) (3/5) 10 2 1 = Inr ([97 / 99, 20 / 33, - (25 / 11)], d) \<and>
        Aerr d = Some (2 / 99) \<and> Berr d = Some (20 / 99))"
proof -
  let ?s = "\<lparr>xs = [2/15, 4/15, 11/15, 13/15], ys = [1, 1, 0, 0], poly = None, dat = data_empty\<rparr>"
  have "solve2 (2/5) 10 (xs ?s) (ys ?s) = Inr ([97 / 99, 20 / 33, - (25 / 11)], 20 / 99)"
    by (simp add: small_order_solve2)
  moreover have "0 \<le> (2::int) + 2" by simp
  ultimately have "\<exists>alt. select (weigh (2/5) 10) 2 (20 / 99)
        (find_error_extrema [97 / 99, 20 / 33, - (25 / 11)] (2/5) (3/5)) = Inr alt \<and>
      length alt \<le> nat (2 + 2) \<and>
      remez_body2 (2/5) (3/5) 10 2 ?s =
      Inr \<lparr>xs = map loc alt, ys = ordinates (2/5) (map loc alt),
           poly = Some [97 / 99, 20 / 33, - (25 / 11)],
           dat = (dat ?s)\<lparr>prev_x := Some (xs ?s), prev_y := Some (ys ?s),
                           Aerr := Some ((20 / 99) / 10), Berr := Some (20 / 99),
                           new_x := Some (map loc alt)\<rparr>\<rparr>"
    by (rule remez_body2_step)
  then have "\<exists>s'. remez_body2 (2/5) (3/5) 10 2 ?s = Inr s' \<and>
      poly s' = Some [97 / 99, 20 / 33, - (25 / 11)] \<and>
      Aerr (dat s') = Some (2 / 99) \<and> Berr (dat s') = Some (20 / 99)"
    by (elim exE conjE) simp
  then obtain s' where "remez_body2 (2/5) (3/5) 10 2 ?s = Inr s'"
    "poly s' = Some [97 / 99, 20 / 33, - (25 / 11)]"
    "Aerr (dat s') = Some (2 / 99)" "Berr (dat s') = Some (20 / 99)"
    by blast
  then have "\<exists>d. remez_fit2 (2/5) (3/5) 10 2 1 = Inr ([97 / 99, 20 / 33, - (25 / 11)], d) \<and>
        Aerr d = Some (2 / 99) \<and> Berr d = Some (20 / 99)"
    by (simp add: remez_fit2_def run_fit_def small_order_initial return_p_data_def)
  moreover have "remez_fit (2/5) (3/5) 2 1 = Inl ValueError"
    by (rule remez_fit_order_check) simp
  ultimately show ?thesis by simp
qed

section \<open>The weighted variant\<close>








section \<open>What the drivers return\<close>

text \<open>
  Claim C9, as the code has it. There are two entry points, \<^verbatim>\<open>remez_fit(A, B, order,
  iterations)\<close> and \<^verbatim>\<open>remez_fit2(A, B, Aweight, order, iterations)\<close>; the weight has no default.
  A call that returns, returns the pair \<^verbatim>\<open>p, data\<close>: the polynomial solved last and the
  dictionary. The final error is no component of its own: it is the entry \<^verbatim>\<open>'err'\<close> of the
  dictionary in \<^verbatim>\<open>remez_fit\<close>, and the entries \<^verbatim>\<open>'Berr'\<close> and \<^verbatim>\<open>'Aerr'\<close> (the error and the error
  divided by \<open>Aweight\<close>) in \<^verbatim>\<open>remez_fit2\<close>, beside the points solved last and the points
  selected last.
\<close>

theorem remez_fit_returns_pair:
  "(remez_fit A B order iterations = Inr (p, d) \<longrightarrow>
      3 \<le> order \<and> 1 \<le> iterations \<and>
      (\<exists>x y e alt. prev_x d = Some x \<and> prev_y d = Some y \<and> solve x y = Inr (p, e) \<and>
         err d = Some e \<and> Aerr d = None \<and> Berr d = None \<and>
         select (\<lambda>l. 1) order e (find_error_extrema p A B) = Inr alt \<and>
         new_x d = Some (map loc alt))) \<and>
   (remez_fit2 A2 B2 Aweight order2 iterations2 = Inr (p2, d2) \<longrightarrow>
      1 \<le> iterations2 \<and>
      (\<exists>x y e alt. prev_x d2 = Some x \<and> prev_y d2 = Some y \<and>
         solve2 A2 Aweight x y = Inr (p2, e) \<and>
         Aerr d2 = Some (e / Aweight) \<and> Berr d2 = Some e \<and> err d2 = None \<and>
         select (weigh A2 Aweight) order2 e (find_error_extrema p2 A2 B2) = Inr alt \<and>
         new_x d2 = Some (map loc alt)))"
  using remez_fit_Inr [of A B order iterations p d]
    remez_fit2_Inr [of A2 B2 Aweight order2 iterations2 p2 d2]
  by blast

text \<open>
  Both calls return: \<^verbatim>\<open>remez_fit(0.4, 0.6, 3, 1)\<close> and \<^verbatim>\<open>remez_fit2(0.8, 0.85, 100, 4, 1)\<close>.
\<close>

theorem remez_fit_returns_pair_witness:
  "(3 \<le> (3::int) \<and> 1 \<le> (1::int) \<and>
      (\<exists>x y e alt. prev_x \<lparr>prev_x = Some [2 / 15, 4 / 15, 7 / 10, 4 / 5, 9 / 10], prev_y = Some [1, 1, 0, 0, 0], err = Some (8703 / 228344), Aerr = None, Berr = None, new_x = Some [26 / 165, 2 / 5, 3 / 5, 133 / 165, 1]\<rparr> = Some x \<and> prev_y \<lparr>prev_x = Some [2 / 15, 4 / 15, 7 / 10, 4 / 5, 9 / 10], prev_y = Some [1, 1, 0, 0, 0], err = Some (8703 / 228344), Aerr = None, Berr = None, new_x = Some [26 / 165, 2 / 5, 3 / 5, 133 / 165, 1]\<rparr> = Some y \<and>
         solve x y = Inr ([186741 / 228344, 696015 / 228344, - (329175 / 28543), 455625 / 57086], e) \<and>
         err \<lparr>prev_x = Some [2 / 15, 4 / 15, 7 / 10, 4 / 5, 9 / 10], prev_y = Some [1, 1, 0, 0, 0], err = Some (8703 / 228344), Aerr = None, Berr = None, new_x = Some [26 / 165, 2 / 5, 3 / 5, 133 / 165, 1]\<rparr> = Some e \<and> Aerr \<lparr>prev_x = Some [2 / 15, 4 / 15, 7 / 10, 4 / 5, 9 / 10], prev_y = Some [1, 1, 0, 0, 0], err = Some (8703 / 228344), Aerr = None, Berr = None, new_x = Some [26 / 165, 2 / 5, 3 / 5, 133 / 165, 1]\<rparr> = None \<and> Berr \<lparr>prev_x = Some [2 / 15, 4 / 15, 7 / 10, 4 / 5, 9 / 10], prev_y = Some [1, 1, 0, 0, 0], err = Some (8703 / 228344), Aerr = None, Berr = None, new_x = Some [26 / 165, 2 / 5, 3 / 5, 133 / 165, 1]\<rparr> = None \<and>
         select (\<lambda>l. 1) 3 e (find_error_extrema [186741 / 228344, 696015 / 228344, - (329175 / 28543), 455625 / 57086] (2/5) (3/5)) = Inr alt \<and>
         new_x \<lparr>prev_x = Some [2 / 15, 4 / 15, 7 / 10, 4 / 5, 9 / 10], prev_y = Some [1, 1, 0, 0, 0], err = Some (8703 / 228344), Aerr = None, Berr = None, new_x = Some [26 / 165, 2 / 5, 3 / 5, 133 / 165, 1]\<rparr> = Some (map loc alt))) \<and>
   (1 \<le> (1::int) \<and>
      (\<exists>x y e alt. prev_x \<lparr>prev_x = Some [2 / 15, 4 / 15, 2 / 5, 8 / 15, 2 / 3, 37 / 40], prev_y = Some [1, 1, 1, 1, 1, 0], err = None, Aerr = Some (32768 / 7205803), Berr = Some (3276800 / 7205803), new_x = Some [0, 104 / 495, 4 / 5, 17 / 20]\<rparr> = Some x \<and> prev_y \<lparr>prev_x = Some [2 / 15, 4 / 15, 2 / 5, 8 / 15, 2 / 3, 37 / 40], prev_y = Some [1, 1, 1, 1, 1, 0], err = None, Aerr = Some (32768 / 7205803), Berr = Some (3276800 / 7205803), new_x = Some [0, 104 / 495, 4 / 5, 17 / 20]\<rparr> = Some y \<and>
         solve2 (4/5) 100 x y = Inr ([6189995 / 7205803, 13762560 / 7205803, - (61440000 / 7205803), 110592000 / 7205803, - (69120000 / 7205803)], e) \<and>
         Aerr \<lparr>prev_x = Some [2 / 15, 4 / 15, 2 / 5, 8 / 15, 2 / 3, 37 / 40], prev_y = Some [1, 1, 1, 1, 1, 0], err = None, Aerr = Some (32768 / 7205803), Berr = Some (3276800 / 7205803), new_x = Some [0, 104 / 495, 4 / 5, 17 / 20]\<rparr> = Some (e / 100) \<and> Berr \<lparr>prev_x = Some [2 / 15, 4 / 15, 2 / 5, 8 / 15, 2 / 3, 37 / 40], prev_y = Some [1, 1, 1, 1, 1, 0], err = None, Aerr = Some (32768 / 7205803), Berr = Some (3276800 / 7205803), new_x = Some [0, 104 / 495, 4 / 5, 17 / 20]\<rparr> = Some e \<and> err \<lparr>prev_x = Some [2 / 15, 4 / 15, 2 / 5, 8 / 15, 2 / 3, 37 / 40], prev_y = Some [1, 1, 1, 1, 1, 0], err = None, Aerr = Some (32768 / 7205803), Berr = Some (3276800 / 7205803), new_x = Some [0, 104 / 495, 4 / 5, 17 / 20]\<rparr> = None \<and>
         select (weigh (4/5) 100) 4 e (find_error_extrema [6189995 / 7205803, 13762560 / 7205803, - (61440000 / 7205803), 110592000 / 7205803, - (69120000 / 7205803)] (4/5) (17/20)) = Inr alt \<and>
         new_x \<lparr>prev_x = Some [2 / 15, 4 / 15, 2 / 5, 8 / 15, 2 / 3, 37 / 40], prev_y = Some [1, 1, 1, 1, 1, 0], err = None, Aerr = Some (32768 / 7205803), Berr = Some (3276800 / 7205803), new_x = Some [0, 104 / 495, 4 / 5, 17 / 20]\<rparr> = Some (map loc alt)))"
proof -
  note t = remez_fit_returns_pair [where A = "2/5" and B = "3/5" and order = 3 and iterations = 1
      and p = "[186741 / 228344, 696015 / 228344, - (329175 / 28543), 455625 / 57086]" and d = "\<lparr>prev_x = Some [2 / 15, 4 / 15, 7 / 10, 4 / 5, 9 / 10], prev_y = Some [1, 1, 0, 0, 0], err = Some (8703 / 228344), Aerr = None, Berr = None, new_x = Some [26 / 165, 2 / 5, 3 / 5, 133 / 165, 1]\<rparr>"
      and ?A2.0 = "4/5" and ?B2.0 = "17/20" and Aweight = 100 and ?order2.0 = 4
      and ?iterations2.0 = 1 and ?p2.0 = "[6189995 / 7205803, 13762560 / 7205803, - (61440000 / 7205803), 110592000 / 7205803, - (69120000 / 7205803)]" and ?d2.0 = "\<lparr>prev_x = Some [2 / 15, 4 / 15, 2 / 5, 8 / 15, 2 / 3, 37 / 40], prev_y = Some [1, 1, 1, 1, 1, 0], err = None, Aerr = Some (32768 / 7205803), Berr = Some (3276800 / 7205803), new_x = Some [0, 104 / 495, 4 / 5, 17 / 20]\<rparr>"]
  show ?thesis
    by (intro conjI; (rule t [THEN conjunct1, THEN mp, OF standard_fit, THEN conjunct1]
        | rule t [THEN conjunct1, THEN mp, OF standard_fit, THEN conjunct2, THEN conjunct1]
        | rule t [THEN conjunct1, THEN mp, OF standard_fit, THEN conjunct2, THEN conjunct2]
        | rule t [THEN conjunct2, THEN mp, OF narrow_fit_1, THEN conjunct1]
        | rule t [THEN conjunct2, THEN mp, OF narrow_fit_1, THEN conjunct2]))
qed

text \<open>
  Claim C9 as stated fails: \<^verbatim>\<open>remez_fit(0.4, 0.6, 3, 1)\<close> returns two values, the polynomial
  and the dictionary, and the error is found in the dictionary.
\<close>

theorem remez_fit_returns_triple_counterexample:
  "remez_fit (2/5) (3/5) 3 1 =
     Inr ([186741 / 228344, 696015 / 228344, - (329175 / 28543), 455625 / 57086],
          \<lparr>prev_x = Some [2 / 15, 4 / 15, 7 / 10, 4 / 5, 9 / 10], prev_y = Some [1, 1, 0, 0, 0], err = Some (8703 / 228344), Aerr = None, Berr = None, new_x = Some [26 / 165, 2 / 5, 3 / 5, 133 / 165, 1]\<rparr>) \<and>
   err \<lparr>prev_x = Some [2 / 15, 4 / 15, 7 / 10, 4 / 5, 9 / 10], prev_y = Some [1, 1, 0, 0, 0], err = Some (8703 / 228344), Aerr = None, Berr = None, new_x = Some [26 / 165, 2 / 5, 3 / 5, 133 / 165, 1]\<rparr> = Some (8703 / 228344)"
  by (simp add: standard_fit)

end
